theory Spec2Isabelle
  imports Complex_Main "HOL-Library.Char_ord" "HOL-Library.List_Lexorder"
begin

section \<open>The emotion pipeline of 2finetuned.ipynb\<close>

text \<open>
  The notebook fine-tunes a 28-label emotion classifier and runs it on sample sentences.
  The model and the pretrained tokenizer are external; what the notebook itself computes is
  the label encoding of the two datasets, the padding policy it asks of the tokenizer, the
  argmax of the accuracy cell, and the sigmoid / threshold decoding of the inference cell.
  Tensor entries are real numbers here (a 32-bit float is one): the comparisons the
  notebook makes (\<open>> 0.5\<close>, \<open>== 1\<close>) are exact on them. The one function that rounds,
  \<^verbatim>\<open>torch.sigmoid\<close>, is a parameter of the cells that call it.
\<close>

subsection \<open>Errors and the label space\<close>

text \<open>
  The exceptions of the cells. \<open>MissingValue\<close> is the one a missing value (NaN) in a
  column of the frame raises in scikit-learn or in the tokenizer, a TypeError or a
  ValueError according to where the value stands.
\<close>

datatype error = IndexError | ValueError | MissingValue

text \<open>\<^verbatim>\<open>num_labels = 28\<close> (preprocess_function and the custom-dataset cell).\<close>

definition num_labels :: nat where
  "num_labels = 28"

definition emotion_labels :: "string list" where
  "emotion_labels =
    [''admiration'', ''amusement'', ''anger'', ''annoyance'', ''approval'', ''caring'',
     ''confusion'', ''curiosity'', ''desire'', ''disappointment'', ''disapproval'', ''disgust'',
     ''embarrassment'', ''excitement'', ''fear'', ''gratitude'', ''grief'', ''joy'', ''love'',
     ''nervousness'', ''optimism'', ''pride'', ''realization'', ''relief'', ''remorse'',
     ''sadness'', ''surprise'', ''neutral'']"

subsection \<open>preprocess\_function: one-hot labels of the primary dataset\<close>

text \<open>
  numpy integer indexing along an axis of size \<open>n\<close>: an index in \<open>[0, n)\<close> is taken as it
  is, an index in \<open>[-n, 0)\<close> counts from the end, anything else raises IndexError.
\<close>

definition np_index :: "nat \<Rightarrow> int \<Rightarrow> error + nat" where
  "np_index n i =
     (if 0 \<le> i \<and> i < int n then Inr (nat i)
      else if - int n \<le> i \<and> i < 0 then Inr (nat (i + int n))
      else Inl IndexError)"

text \<open>
  \<^verbatim>\<open>labels[idx, label] = 1\<close> on the row \<open>idx\<close> of \<^verbatim>\<open>np.zeros((len(examples['label']), num_labels))\<close>.
\<close>

definition one_hot_row :: "int \<Rightarrow> error + real list" where
  "one_hot_row label =
     (case np_index num_labels label of
        Inl e \<Rightarrow> Inl e
      | Inr j \<Rightarrow> Inr ((replicate num_labels 0)[j := 1]))"

text \<open>
  The loop \<^verbatim>\<open>for idx, label in enumerate(examples['label'])\<close>: the first label that cannot
  be indexed raises, and the batch has no result.
\<close>

fun preprocess_labels :: "int list \<Rightarrow> error + real list list" where
  "preprocess_labels [] = Inr []"
| "preprocess_labels (label # rest) =
     (case one_hot_row label of
        Inl e \<Rightarrow> Inl e
      | Inr row \<Rightarrow>
          (case preprocess_labels rest of
             Inl e \<Rightarrow> Inl e
           | Inr rows \<Rightarrow> Inr (row # rows)))"

subsection \<open>The custom-dataset cell: labels of the secondary dataset\<close>

text \<open>
  A cell of the frame \<^verbatim>\<open>new_dataset = pd.read_csv(file_path)\<close>, in a column of strings:
  a string, or the missing value NaN that \<^verbatim>\<open>read_csv\<close> puts where the field of the file is
  empty (or spells a missing value, as NA does). \<open>None\<close> is NaN.
\<close>

type_synonym cell = "string option"

text \<open>
  \<^verbatim>\<open>lb = LabelBinarizer(); labels = lb.fit_transform(new_dataset['sentiment'])\<close>.
  The binarizer is scikit-learn's. An empty column raises ValueError. A column with a
  missing value raises as well, a TypeError where the strings are sorted against NaN or a
  ValueError when NaN stands first: \<open>MissingValue\<close> is that error, whichever of the two.
  On a column of strings the classes are the sorted distinct values, and there is one row
  per value of the column: with three classes or more the row is the indicator of the
  value among the classes; with two classes it is a single entry, 1 for the second class;
  with one class a single 0.
\<close>

definition lb_classes :: "string list \<Rightarrow> string list" where
  "lb_classes y = sort (remdups y)"

definition lb_row :: "string list \<Rightarrow> string \<Rightarrow> real list" where
  "lb_row classes s =
     (if length classes = 1 then [0]
      else if length classes = 2 then [if s = classes ! 1 then 1 else 0]
      else map (\<lambda>c. if s = c then 1 else 0) classes)"

definition lb_fit_transform :: "cell list \<Rightarrow> error + real list list" where
  "lb_fit_transform column =
     (if column = [] then Inl ValueError
      else case those column of
             None \<Rightarrow> Inl MissingValue
           | Some y \<Rightarrow> Inr (map (lb_row (lb_classes y)) y))"

text \<open>
  \<^verbatim>\<open>adjusted_labels[i, :len(label)] = label\<close> on one row of the zero matrix. The slice
  \<^verbatim>\<open>:len(label)\<close> stops at the end of the row, so it has \<open>min (len(label)) (len(row))\<close>
  positions; numpy assigns a value of that many entries (or a single entry, broadcast) and
  raises ValueError for any other shape.
\<close>

definition assign_prefix :: "real list \<Rightarrow> real list \<Rightarrow> error + real list" where
  "assign_prefix row label =
     (let k = min (length label) (length row) in
      if length label = k then Inr (label @ drop k row)
      else if length label = 1 then Inr (replicate k (hd label) @ drop k row)
      else Inl ValueError)"

text \<open>
  \<^verbatim>\<open>adjusted_labels = np.zeros((len(labels), num_labels))\<close> and the loop
  \<^verbatim>\<open>for i, label in enumerate(labels)\<close>.
\<close>

fun adjust_labels :: "real list list \<Rightarrow> error + real list list" where
  "adjust_labels [] = Inr []"
| "adjust_labels (label # rest) =
     (case assign_prefix (replicate num_labels 0) label of
        Inl e \<Rightarrow> Inl e
      | Inr row \<Rightarrow>
          (case adjust_labels rest of
             Inl e \<Rightarrow> Inl e
           | Inr rows \<Rightarrow> Inr (row # rows)))"

text \<open>The label part of the cell: binarize the sentiment column, then adjust.\<close>

definition encode_sentiments :: "cell list \<Rightarrow> error + real list list" where
  "encode_sentiments column =
     (case lb_fit_transform column of
        Inl e \<Rightarrow> Inl e
      | Inr b \<Rightarrow> adjust_labels b)"

subsection \<open>The calls of the tokenizer\<close>

text \<open>
  The pretrained tokenizer is external: its vocabulary and its special tokens are
  parameters. What the notebook chooses is the arguments of each call,
  \<^verbatim>\<open>truncation=True, max_length=128\<close> everywhere, \<^verbatim>\<open>padding="max_length"\<close> in
  preprocess_function and \<^verbatim>\<open>padding=True\<close> in the other cells. As the library documents
  them: truncation cuts a text so that, with the two special tokens around it, it has at
  most max_length positions; \<^verbatim>\<open>"max_length"\<close> pads every sequence to max_length,
  \<^verbatim>\<open>True\<close> pads to the longest sequence of the batch; the attention mask is 1 on the
  tokens and 0 on the padding.
\<close>

record pretrained_tokenizer =
  tokenize :: "string \<Rightarrow> nat list"
  bos_token_id :: nat
  eos_token_id :: nat
  pad_token_id :: nat

datatype padding_strategy = PadMaxLength | PadLongest

record batch_encoding =
  input_ids :: "nat list list"
  attention_mask :: "nat list list"

definition encode_one :: "pretrained_tokenizer \<Rightarrow> nat \<Rightarrow> string \<Rightarrow> nat list" where
  "encode_one tk max_length s =
     bos_token_id tk # take (max_length - 2) (tokenize tk s) @ [eos_token_id tk]"

definition pad_length :: "padding_strategy \<Rightarrow> nat \<Rightarrow> nat list list \<Rightarrow> nat" where
  "pad_length padding max_length seqs =
     (case padding of
        PadMaxLength \<Rightarrow> max_length
      | PadLongest \<Rightarrow> foldr max (map length seqs) 0)"

text \<open>The encoding of a batch: every text encoded, then padded to the common length.\<close>

definition pad_batch ::
  "pretrained_tokenizer \<Rightarrow> padding_strategy \<Rightarrow> nat \<Rightarrow> string list \<Rightarrow> batch_encoding" where
  "pad_batch tk padding max_length texts =
     (let seqs = map (encode_one tk max_length) texts;
          n = pad_length padding max_length seqs
      in \<lparr>input_ids = map (\<lambda>ids. ids @ replicate (n - length ids) (pad_token_id tk)) seqs,
          attention_mask = map (\<lambda>ids. replicate (length ids) 1 @ replicate (n - length ids) 0) seqs\<rparr>)"

text \<open>
  The call of the tokenizer on a list of strings. On an empty list it raises IndexError
  (it reads the keys of the first encoding of the batch), whatever the padding.
\<close>

definition call_tokenizer ::
  "pretrained_tokenizer \<Rightarrow> padding_strategy \<Rightarrow> nat \<Rightarrow> string list
     \<Rightarrow> error + batch_encoding" where
  "call_tokenizer tk padding max_length texts =
     (if texts = [] then Inl IndexError else Inr (pad_batch tk padding max_length texts))"

text \<open>
  \<^verbatim>\<open>tokenizer(examples['text'], padding="max_length", truncation=True, max_length=128)\<close>
  (preprocess_function).
\<close>

definition training_encoding ::
  "pretrained_tokenizer \<Rightarrow> string list \<Rightarrow> error + batch_encoding" where
  "training_encoding tk texts = call_tokenizer tk PadMaxLength 128 texts"

text \<open>
  \<^verbatim>\<open>tokenizer(custom_input, return_tensors="pt", padding=True, truncation=True, max_length=128)\<close>
  (the inference cell; the accuracy cell and the custom-dataset cell make the same call).
\<close>

definition inference_encoding ::
  "pretrained_tokenizer \<Rightarrow> string list \<Rightarrow> error + batch_encoding" where
  "inference_encoding tk texts = call_tokenizer tk PadLongest 128 texts"

text \<open>
  \<^verbatim>\<open>tokenizer(list(new_dataset['content']), padding=True, ...)\<close>: the call on a column of
  the frame. The tokenizer takes strings only: a missing value in the column makes it
  raise (a TypeError, or a ValueError when NaN stands first).
\<close>

definition tokenize_column :: "pretrained_tokenizer \<Rightarrow> cell list \<Rightarrow> error + batch_encoding" where
  "tokenize_column tk column =
     (case those column of
        None \<Rightarrow> Inl MissingValue
      | Some texts \<Rightarrow> inference_encoding tk texts)"

subsection \<open>The encoded datasets\<close>

record model_inputs =
  mi_input_ids :: "nat list list"
  mi_attention_mask :: "nat list list"
  mi_labels :: "real list list"

text \<open>
  preprocess_function on one batch of the primary dataset (columns text and label): the
  tokenizer first, then the labels.
\<close>

definition preprocess_function ::
  "pretrained_tokenizer \<Rightarrow> string list \<Rightarrow> int list \<Rightarrow> error + model_inputs" where
  "preprocess_function tk texts label_column =
     (case training_encoding tk texts of
        Inl e \<Rightarrow> Inl e
      | Inr inputs \<Rightarrow>
          (case preprocess_labels label_column of
             Inl e \<Rightarrow> Inl e
           | Inr ls \<Rightarrow>
               Inr \<lparr>mi_input_ids = input_ids inputs, mi_attention_mask = attention_mask inputs,
                    mi_labels = ls\<rparr>))"

text \<open>A row of the frame read from tweet_emotions.csv: the columns sentiment and content.\<close>

record raw_record =
  sentiment :: cell
  content :: cell

text \<open>
  The custom-dataset cell up to \<^verbatim>\<open>encoded_inputs["labels"] = torch.tensor(adjusted_labels)\<close>:
  labels first, then the tokenizer.
\<close>

definition build_encoded_inputs ::
  "pretrained_tokenizer \<Rightarrow> raw_record list \<Rightarrow> error + model_inputs" where
  "build_encoded_inputs tk new_dataset =
     (case encode_sentiments (map sentiment new_dataset) of
        Inl e \<Rightarrow> Inl e
      | Inr adjusted \<Rightarrow>
          (case tokenize_column tk (map content new_dataset) of
             Inl e \<Rightarrow> Inl e
           | Inr encoded \<Rightarrow>
               Inr \<lparr>mi_input_ids = input_ids encoded, mi_attention_mask = attention_mask encoded,
                    mi_labels = adjusted\<rparr>))"

text \<open>\<^verbatim>\<open>CustomDataset.__len__\<close>: \<^verbatim>\<open>len(self.encodings["input_ids"])\<close>.\<close>

definition custom_dataset_len :: "model_inputs \<Rightarrow> nat" where
  "custom_dataset_len encodings = length (mi_input_ids encodings)"

text \<open>
  \<^verbatim>\<open>CustomDataset.__getitem__\<close>: \<^verbatim>\<open>val[idx]\<close> for every key of the encodings; a tensor is
  indexed as numpy indexes.
\<close>

record encoded_example =
  token_ids :: "nat list"
  mask :: "nat list"
  label_vector :: "real list"

definition get_row :: "'a list \<Rightarrow> int \<Rightarrow> error + 'a" where
  "get_row rows idx =
     (case np_index (length rows) idx of
        Inl e \<Rightarrow> Inl e
      | Inr j \<Rightarrow> Inr (rows ! j))"

definition custom_dataset_getitem :: "model_inputs \<Rightarrow> int \<Rightarrow> error + encoded_example" where
  "custom_dataset_getitem encodings idx =
     (case get_row (mi_input_ids encodings) idx of
        Inl e \<Rightarrow> Inl e
      | Inr ids \<Rightarrow>
          (case get_row (mi_attention_mask encodings) idx of
             Inl e \<Rightarrow> Inl e
           | Inr m \<Rightarrow>
               (case get_row (mi_labels encodings) idx of
                  Inl e \<Rightarrow> Inl e
                | Inr l \<Rightarrow> Inr \<lparr>token_ids = ids, mask = m, label_vector = l\<rparr>)))"

subsection \<open>Thresholded predictions of the inference cell\<close>

text \<open>\<^verbatim>\<open>threshold = 0.5\<close>\<close>

definition threshold :: real where
  "threshold = 0.5"

text \<open>\<^verbatim>\<open>predictions = (probabilities > threshold).int()\<close>, one row.\<close>

definition binarize_row :: "real \<Rightarrow> real list \<Rightarrow> int list" where
  "binarize_row t p = map (\<lambda>x. if x > t then 1 else 0) p"

text \<open>
  \<^verbatim>\<open>for emotion, pred in zip(emotion_labels, predictions[i].tolist()): if pred == 1: print(emotion)\<close>:
  the emotions printed for one row, in the order they are printed.
\<close>

definition predicted_emotions :: "int list \<Rightarrow> string list" where
  "predicted_emotions preds = map fst (filter (\<lambda>(emotion, pred). pred = 1) (zip emotion_labels preds))"

text \<open>The decoding of one probability row at a threshold: the two steps above.\<close>

definition decode :: "real list \<Rightarrow> real \<Rightarrow> string list" where
  "decode p t = predicted_emotions (binarize_row t p)"

subsection \<open>Probabilities and the inference cell\<close>

text \<open>
  The logistic function. \<^verbatim>\<open>torch.sigmoid\<close> evaluates it in 32-bit floating point: the
  entries of the tensor are roundings of its values, equal to them at logit 0, where the
  value 1/2 is exact. So the cells below take the function that \<^verbatim>\<open>torch.sigmoid\<close>
  applies to an entry as a parameter, \<open>sg\<close>.
\<close>

definition sigmoid :: "real \<Rightarrow> real" where
  "sigmoid x = 1 / (1 + exp (- x))"

text \<open>
  \<^verbatim>\<open>probabilities = torch.sigmoid(outputs.logits)\<close>, and
  \<^verbatim>\<open>torch.sigmoid(torch.tensor(results.predictions))\<close> in the cell before: every entry of
  the logits goes through \<open>sg\<close>.
\<close>

definition sigmoid_rows :: "(real \<Rightarrow> real) \<Rightarrow> real list list \<Rightarrow> real list list" where
  "sigmoid_rows sg logits = map (map sg) logits"

text \<open>What the cell shows for one input text: the text, its probabilities, its emotions.\<close>

record prediction_result =
  pr_text :: string
  pr_probabilities :: "real list"
  pr_predicted_labels :: "string list"

text \<open>
  The loops \<^verbatim>\<open>for i, text in enumerate(custom_input)\<close> over \<^verbatim>\<open>probabilities[i]\<close> and
  \<^verbatim>\<open>predictions[i]\<close>, from index \<open>i\<close> on: a text with no row of its own raises IndexError.
\<close>

fun display_results ::
  "real \<Rightarrow> real list list \<Rightarrow> nat \<Rightarrow> string list \<Rightarrow> error + prediction_result list" where
  "display_results t probs i [] = Inr []"
| "display_results t probs i (txt # rest) =
     (if i < length probs then
        (case display_results t probs (Suc i) rest of
           Inl e \<Rightarrow> Inl e
         | Inr rs \<Rightarrow>
             Inr (\<lparr>pr_text = txt, pr_probabilities = probs ! i,
                   pr_predicted_labels = decode (probs ! i) t\<rparr> # rs))
      else Inl IndexError)"

text \<open>
  The inference cell. The model is external: \<open>forward\<close> stands for
  \<^verbatim>\<open>model(**encoded_inputs).logits\<close>.
\<close>

definition predict ::
  "pretrained_tokenizer \<Rightarrow> (batch_encoding \<Rightarrow> real list list) \<Rightarrow> (real \<Rightarrow> real) \<Rightarrow> string list
     \<Rightarrow> error + prediction_result list" where
  "predict tk forward sg custom_input =
     (case inference_encoding tk custom_input of
        Inl e \<Rightarrow> Inl e
      | Inr encoded_inputs \<Rightarrow>
          (let logits = forward encoded_inputs;
               probabilities = sigmoid_rows sg logits
           in display_results threshold probabilities 0 custom_input))"

subsection \<open>The accuracy cell\<close>

text \<open>
  \<^verbatim>\<open>torch.argmax(logits, dim=-1)\<close> on one row: the index of the first maximal entry, found
  by a scan that keeps the best index so far; a row with no entry raises IndexError.
\<close>

fun argmax_scan :: "nat \<Rightarrow> real \<Rightarrow> nat \<Rightarrow> real list \<Rightarrow> nat" where
  "argmax_scan best bv i [] = best"
| "argmax_scan best bv i (x # xs) =
     (if bv < x then argmax_scan i x (Suc i) xs else argmax_scan best bv (Suc i) xs)"

fun argmax :: "real list \<Rightarrow> error + nat" where
  "argmax [] = Inl IndexError"
| "argmax (x # xs) = Inr (argmax_scan 0 x 1 xs)"

fun argmax_rows :: "real list list \<Rightarrow> error + nat list" where
  "argmax_rows [] = Inr []"
| "argmax_rows (row # rest) =
     (case argmax row of
        Inl e \<Rightarrow> Inl e
      | Inr k \<Rightarrow>
          (case argmax_rows rest of
             Inl e \<Rightarrow> Inl e
           | Inr ks \<Rightarrow> Inr (k # ks)))"

text \<open>
  \<^verbatim>\<open>metric.compute(predictions=predictions, references=labels)\<close> of the accuracy metric:
  the fraction of positions where prediction and reference are equal. Lists of different
  lengths raise ValueError. On an empty batch the fraction is 0/0 and there is no number
  to report (the notebook evaluates 500 records): \<open>None\<close>.
\<close>

definition accuracy :: "nat list \<Rightarrow> int list \<Rightarrow> error + real option" where
  "accuracy predictions references =
     (if length predictions \<noteq> length references then Inl ValueError
      else if references = [] then Inr None
      else Inr (Some (real (length (filter (\<lambda>(p, r). int p = r) (zip predictions references)))
                      / real (length references))))"

text \<open>
  The accuracy cell: the texts are encoded as at inference, the predictions are the argmax
  of the logits, the references are the raw integer labels of the dataset.
\<close>

definition accuracy_cell ::
  "pretrained_tokenizer \<Rightarrow> (batch_encoding \<Rightarrow> real list list) \<Rightarrow> string list \<Rightarrow> int list
     \<Rightarrow> error + real option" where
  "accuracy_cell tk forward texts label_column =
     (case inference_encoding tk texts of
        Inl e \<Rightarrow> Inl e
      | Inr encoded_inputs \<Rightarrow>
          (let logits = forward encoded_inputs
           in case argmax_rows logits of
                Inl e \<Rightarrow> Inl e
              | Inr predictions \<Rightarrow> accuracy predictions label_column))"

section \<open>Properties\<close>

lemma length_emotion_labels: "length emotion_labels = num_labels"
  by (simp add: emotion_labels_def num_labels_def)

lemma distinct_emotion_labels: "distinct emotion_labels"
  by (simp add: emotion_labels_def)

lemma set_decode:
  "set (decode p t) = {emotion_labels ! i | i. i < length emotion_labels \<and> i < length p \<and> t < p ! i}"
proof -
  have "set (decode p t) = {e. \<exists>pred. (e, pred) \<in> set (zip emotion_labels (binarize_row t p)) \<and> pred = 1}"
    by (auto simp: decode_def predicted_emotions_def image_iff)
  also have "\<dots> = {emotion_labels ! i | i. i < length emotion_labels \<and> i < length p \<and> t < p ! i}"
    by (auto simp: set_zip binarize_row_def split: if_splits)
  finally show ?thesis .
qed

subsection \<open>One-hot rows\<close>

lemma one_hot_row_in_range:
  assumes "- int num_labels \<le> l" "l < int num_labels"
  shows "one_hot_row l =
    Inr ((replicate num_labels 0)[nat (if 0 \<le> l then l else l + int num_labels) := 1])"
  using assms by (simp add: one_hot_row_def np_index_def)

lemma one_hot_row_out_of_range:
  assumes "l < - int num_labels \<or> int num_labels \<le> l"
  shows "one_hot_row l = Inl IndexError"
  using assms by (auto simp: one_hot_row_def np_index_def)

subsection \<open>Decoding at a threshold\<close>

text \<open>
  Claim C1. For every probability row \<open>p\<close> of length N and every threshold \<open>t\<close>, the
  decoding predicts the category at index \<open>i\<close> exactly when \<open>p ! i > t\<close>, strictly, and it
  predicts nothing outside the label space; a row whose entries all equal the threshold 0.5
  decodes to no emotion at all.
\<close>

theorem decode_strict_threshold:
  assumes "length p = num_labels"
  shows "(\<forall>i<num_labels. (emotion_labels ! i \<in> set (decode p t)) = (t < p ! i))
       \<and> set (decode p t) \<subseteq> set emotion_labels
       \<and> decode (replicate num_labels threshold) threshold = []"
proof (intro conjI allI impI)
  fix i assume i: "i < num_labels"
  show "(emotion_labels ! i \<in> set (decode p t)) = (t < p ! i)"
    using i assms distinct_emotion_labels
    by (auto simp: set_decode length_emotion_labels nth_eq_iff_index_eq)
next
  show "set (decode p t) \<subseteq> set emotion_labels"
    by (auto simp: set_decode)
next
  have "set (decode (replicate num_labels threshold) threshold) = {}"
    by (auto simp: set_decode)
  then show "decode (replicate num_labels threshold) threshold = []"
    by simp
qed

theorem decode_strict_threshold_witness:
  "length ((replicate 28 (1/2))[2 := 9/10 :: real]) = num_labels
   \<and> emotion_labels ! 2 \<in> set (decode ((replicate 28 (1/2))[2 := 9/10]) (1/2))
   \<and> emotion_labels ! 3 \<notin> set (decode ((replicate 28 (1/2))[2 := 9/10]) (1/2))"
proof -
  let ?p = "(replicate 28 (1/2))[2 := 9/10 :: real]"
  have h: "length ?p = num_labels"
    by (simp add: num_labels_def)
  have all: "\<forall>i<num_labels. (emotion_labels ! i \<in> set (decode ?p (1/2))) = (1/2 < ?p ! i)"
    using decode_strict_threshold [OF h, of "1/2"] by blast
  have "(emotion_labels ! 2 \<in> set (decode ?p (1/2))) = (1/2 < ?p ! 2)"
    and "(emotion_labels ! 3 \<in> set (decode ?p (1/2))) = (1/2 < ?p ! 3)"
    using all by (simp_all add: num_labels_def)
  then show ?thesis
    using h by simp
qed

text \<open>
  Claim C3. For every raw integer label \<open>l\<close> in \<open>[0, N)\<close> the one-hot row of \<open>l\<close> exists,
  and decoding it at the default threshold gives exactly the set with the one category
  \<open>emotion_labels ! l\<close>.
\<close>

theorem encode_decode_round_trip:
  assumes "0 \<le> l" "l < int num_labels"
  shows "\<exists>row. one_hot_row l = Inr row \<and> preprocess_labels [l] = Inr [row]
           \<and> set (decode row threshold) = {emotion_labels ! nat l}"
proof -
  let ?row = "(replicate num_labels 0)[nat l := 1 :: real]"
  have r: "one_hot_row l = Inr ?row"
    using assms one_hot_row_in_range [of l] by simp
  have "set (decode ?row threshold) = {emotion_labels ! nat l}"
    using assms by (auto simp: set_decode length_emotion_labels threshold_def nth_list_update)
  with r show ?thesis by simp
qed

theorem encode_decode_round_trip_witness:
  "(0::int) \<le> 17 \<and> 17 < int num_labels
   \<and> set (decode (projr (one_hot_row 17)) threshold) = {''joy''}"
proof -
  have a: "(0::int) \<le> 17" and b: "17 < int num_labels"
    by (simp_all add: num_labels_def)
  obtain row where row: "one_hot_row 17 = Inr row"
    and dec: "set (decode row threshold) = {emotion_labels ! nat 17}"
    using encode_decode_round_trip [OF a b] by blast
  have "emotion_labels ! nat 17 = ''joy''"
    by (simp add: emotion_labels_def)
  with row dec a b show ?thesis by simp
qed

text \<open>
  Claim C7, as stated, with failure on every label outside \<open>[0, N)\<close>: the label \<open>-1\<close> is
  outside, and the encoding returns a row, the one-hot row of the last index.
\<close>

theorem one_hot_row_negative_label_counterexample:
  "one_hot_row (- 1) = Inr ((replicate 28 0)[27 := 1])
   \<and> preprocess_labels [- 1] = Inr [(replicate 28 0)[27 := 1]]"
  by (simp add: one_hot_row_def np_index_def num_labels_def)

text \<open>
  Claim C7, amended. The encoding of an integer label returns a row exactly when the
  label is in \<open>[-N, N)\<close>: the row has length N, one entry 1 and all others 0, the 1 at
  index \<open>l\<close> for \<open>l \<ge> 0\<close> and at index \<open>l + N\<close> for \<open>l < 0\<close>. For every label outside
  \<open>[-N, N)\<close> it fails with IndexError.
\<close>

theorem one_hot_row_cases:
  "(- int num_labels \<le> l \<and> l < int num_labels \<longrightarrow>
      (\<exists>row. one_hot_row l = Inr row \<and> length row = num_labels
         \<and> (\<forall>k<num_labels. row ! k =
               (if int k = (if 0 \<le> l then l else l + int num_labels) then 1 else 0))))
   \<and> (l < - int num_labels \<or> int num_labels \<le> l \<longrightarrow> one_hot_row l = Inl IndexError)"
proof (intro conjI impI)
  assume r: "- int num_labels \<le> l \<and> l < int num_labels"
  define x where "x = (if 0 \<le> l then l else l + int num_labels)"
  have x: "0 \<le> x"
    using r by (simp add: x_def)
  have "one_hot_row l = Inr ((replicate num_labels 0)[nat x := 1])"
    using r one_hot_row_in_range [of l] by (simp add: x_def)
  moreover have "(nat x = k) = (int k = x)" for k
    using x by auto
  then have "\<forall>k<num_labels. (replicate num_labels (0::real))[nat x := 1] ! k =
      (if int k = x then 1 else 0)"
    by (simp add: nth_list_update)
  ultimately show "\<exists>row. one_hot_row l = Inr row \<and> length row = num_labels
         \<and> (\<forall>k<num_labels. row ! k =
               (if int k = (if 0 \<le> l then l else l + int num_labels) then 1 else 0))"
    unfolding x_def by simp
next
  assume "l < - int num_labels \<or> int num_labels \<le> l"
  then show "one_hot_row l = Inl IndexError"
    by (rule one_hot_row_out_of_range)
qed

theorem one_hot_row_cases_witness:
  "one_hot_row 28 = Inl IndexError \<and> one_hot_row (- 29) = Inl IndexError
   \<and> length (projr (one_hot_row 3)) = num_labels \<and> projr (one_hot_row 3) ! 3 = 1
   \<and> projr (one_hot_row 3) ! 4 = 0 \<and> projr (one_hot_row (- 28)) ! 0 = 1"
proof -
  have hi: "one_hot_row 28 = Inl IndexError"
    using one_hot_row_cases [of 28] by (simp add: num_labels_def)
  have lo: "one_hot_row (- 29) = Inl IndexError"
    using one_hot_row_cases [of "- 29"] by (simp add: num_labels_def)
  obtain row where row: "one_hot_row 3 = Inr row" "length row = num_labels"
    and ent: "\<forall>k<num_labels. row ! k = (if int k = 3 then 1 else 0)"
    using one_hot_row_cases [of 3] by (auto simp: num_labels_def)
  have "row ! 3 = 1" "row ! 4 = 0"
    using ent by (simp_all add: num_labels_def)
  moreover obtain row' where row': "one_hot_row (- 28) = Inr row'"
    and ent': "\<forall>k<num_labels. row' ! k = (if int k = - 28 + int num_labels then 1 else 0)"
    using one_hot_row_cases [of "- 28"] by (auto simp: num_labels_def)
  have "row' ! 0 = 1"
    using ent' by (simp add: num_labels_def)
  ultimately show ?thesis
    using hi lo row row' by simp
qed

subsection \<open>Re-aligning the labels of the secondary dataset\<close>

lemma assign_prefix_fits:
  assumes "length b \<le> num_labels"
  shows "assign_prefix (replicate num_labels 0) b = Inr (b @ replicate (num_labels - length b) 0)"
  using assms by (simp add: assign_prefix_def Let_def min_def)

lemma assign_prefix_too_wide:
  assumes "num_labels < length b"
  shows "assign_prefix (replicate num_labels 0) b = Inl ValueError"
  using assms by (auto simp: assign_prefix_def Let_def min_def num_labels_def)

lemma adjust_labels_eq:
  "adjust_labels bs =
     (if list_all (\<lambda>b. length b \<le> num_labels) bs
      then Inr (map (\<lambda>b. b @ replicate (num_labels - length b) 0) bs)
      else Inl ValueError)"
proof (induction bs)
  case Nil
  show ?case by simp
next
  case (Cons b bs)
  show ?case
  proof (cases "length b \<le> num_labels")
    case True
    then show ?thesis
      using Cons.IH by (simp add: assign_prefix_fits)
  next
    case False
    then show ?thesis
      by (simp add: assign_prefix_too_wide)
  qed
qed

text \<open>
  Claim C2, amended. A binarized label row of width M at most N is zero-padded positionally
  to width N: entry \<open>j\<close> of the adjusted row is entry \<open>j\<close> of the binarized row for
  \<open>j < M\<close> and 0 for \<open>M \<le> j < N\<close>, one adjusted row per record. A row wider than N is
  not truncated: the slice assignment raises ValueError and the cell has no result.
\<close>

theorem adjust_labels_zero_pads:
  "((\<forall>b\<in>set bs. length b \<le> num_labels) \<longrightarrow>
      (\<exists>rows. adjust_labels bs = Inr rows \<and> length rows = length bs
         \<and> (\<forall>i<length bs. length (rows ! i) = num_labels
               \<and> (\<forall>j<length (bs ! i). rows ! i ! j = bs ! i ! j)
               \<and> (\<forall>j. length (bs ! i) \<le> j \<and> j < num_labels \<longrightarrow> rows ! i ! j = 0))))
   \<and> ((\<exists>b\<in>set bs. num_labels < length b) \<longrightarrow> adjust_labels bs = Inl ValueError)"
proof (intro conjI impI)
  assume fit: "\<forall>b\<in>set bs. length b \<le> num_labels"
  let ?rows = "map (\<lambda>b. b @ replicate (num_labels - length b) 0) bs"
  have "adjust_labels bs = Inr ?rows"
    using fit by (simp add: adjust_labels_eq list_all_iff)
  moreover have "\<forall>i<length bs. length (?rows ! i) = num_labels
               \<and> (\<forall>j<length (bs ! i). ?rows ! i ! j = bs ! i ! j)
               \<and> (\<forall>j. length (bs ! i) \<le> j \<and> j < num_labels \<longrightarrow> ?rows ! i ! j = 0)"
    using fit by (auto simp: nth_append)
  ultimately show "\<exists>rows. adjust_labels bs = Inr rows \<and> length rows = length bs
         \<and> (\<forall>i<length bs. length (rows ! i) = num_labels
               \<and> (\<forall>j<length (bs ! i). rows ! i ! j = bs ! i ! j)
               \<and> (\<forall>j. length (bs ! i) \<le> j \<and> j < num_labels \<longrightarrow> rows ! i ! j = 0))"
    by simp
next
  assume "\<exists>b\<in>set bs. num_labels < length b"
  then obtain b where "b \<in> set bs" "\<not> length b \<le> num_labels"
    by (auto simp: not_le)
  then have "\<not> list_all (\<lambda>b. length b \<le> num_labels) bs"
    unfolding list_all_iff by blast
  then show "adjust_labels bs = Inl ValueError"
    by (simp add: adjust_labels_eq)
qed

text \<open>
  Claim C2, as stated, with truncation when M exceeds N: a one-hot row of width 29 is not
  cut to 28 entries, the assignment fails.
\<close>

theorem adjust_labels_wide_row_counterexample:
  "adjust_labels [1 # replicate 28 0] = Inl ValueError"
  by (simp add: assign_prefix_def num_labels_def)

theorem adjust_labels_zero_pads_witness:
  "adjust_labels [[0, 1, 0], 1 # replicate 28 0] = Inl ValueError
   \<and> length (projr (adjust_labels [[0, 1, 0], [1]])) = 2
   \<and> length (projr (adjust_labels [[0, 1, 0], [1]]) ! 0) = num_labels
   \<and> projr (adjust_labels [[0, 1, 0], [1]]) ! 0 ! 1 = 1
   \<and> projr (adjust_labels [[0, 1, 0], [1]]) ! 0 ! 3 = 0
   \<and> projr (adjust_labels [[0, 1, 0], [1]]) ! 1 ! 0 = 1
   \<and> projr (adjust_labels [[0, 1, 0], [1]]) ! 1 ! 27 = 0"
proof -
  let ?bs = "[[0, 1, 0], [1 :: real]]"
  have wide: "adjust_labels [[0, 1, 0], 1 # replicate 28 0] = Inl ValueError"
    using adjust_labels_zero_pads [of "[[0, 1, 0], 1 # replicate 28 0]"]
    by (simp add: num_labels_def)
  have fit: "\<forall>b\<in>set ?bs. length b \<le> num_labels"
    by (simp add: num_labels_def)
  obtain rows where rows: "adjust_labels ?bs = Inr rows" "length rows = length ?bs"
    and ent: "\<forall>i<length ?bs. length (rows ! i) = num_labels
               \<and> (\<forall>j<length (?bs ! i). rows ! i ! j = ?bs ! i ! j)
               \<and> (\<forall>j. length (?bs ! i) \<le> j \<and> j < num_labels \<longrightarrow> rows ! i ! j = 0)"
    using adjust_labels_zero_pads [of ?bs] fit by blast
  have e0: "length (rows ! 0) = num_labels \<and> (\<forall>j<3. rows ! 0 ! j = [0, 1, 0] ! j)
      \<and> (\<forall>j. 3 \<le> j \<and> j < num_labels \<longrightarrow> rows ! 0 ! j = 0)"
    using ent [rule_format, of 0] by simp
  have e1: "(\<forall>j<1. rows ! 1 ! j = [1] ! j)
      \<and> (\<forall>j. 1 \<le> j \<and> j < num_labels \<longrightarrow> rows ! 1 ! j = 0)"
    using ent [rule_format, of 1] by simp
  have "rows ! 0 ! 1 = 1" "rows ! 0 ! 3 = 0" "rows ! 1 ! 0 = 1" "rows ! 1 ! 27 = 0"
    using e0 e1 by (simp_all add: num_labels_def)
  then show ?thesis
    using wide rows e0 by simp
qed

subsection \<open>Width and meaning of the label vectors\<close>

lemma those_eq_Some_iff: "those column = Some y \<longleftrightarrow> column = map Some y"
proof (induction column arbitrary: y)
  case Nil
  show ?case by auto
next
  case (Cons c column)
  show ?case
  proof (cases c)
    case None
    then show ?thesis by auto
  next
    case (Some s)
    show ?thesis
    proof (cases "those column")
      case None
      with Some Cons.IH show ?thesis
        by (cases y) auto
    next
      case some: (Some ys)
      with Some Cons.IH [of ys] show ?thesis
        by (cases y) auto
    qed
  qed
qed

lemma those_eq_None_iff: "those column = None \<longleftrightarrow> None \<in> set column"
proof (induction column)
  case Nil
  show ?case by simp
next
  case (Cons c column)
  then show ?case
    by (cases c; cases "those column") auto
qed

lemma lb_classes_props:
  "sorted (lb_classes y)" "distinct (lb_classes y)" "set (lb_classes y) = set y"
  by (simp_all add: lb_classes_def)

lemma lb_classes_Nil_iff: "lb_classes y = [] \<longleftrightarrow> y = []"
  by (metis lb_classes_props(3) set_empty)

lemma lb_fit_transform_strings:
  assumes "y \<noteq> []"
  shows "lb_fit_transform (map Some y) = Inr (map (lb_row (lb_classes y)) y)"
proof -
  have "those (map Some y) = Some y"
    by (simp add: those_eq_Some_iff)
  with assms show ?thesis
    by (simp add: lb_fit_transform_def)
qed

lemma lb_fit_transform_Inr:
  assumes "lb_fit_transform column = Inr b"
  shows "\<exists>y. column = map Some y \<and> y \<noteq> [] \<and> b = map (lb_row (lb_classes y)) y"
proof -
  from assms have ne: "column \<noteq> []"
    by (auto simp: lb_fit_transform_def)
  with assms obtain y where y: "those column = Some y" and b: "b = map (lb_row (lb_classes y)) y"
    by (auto simp: lb_fit_transform_def split: option.splits)
  from y have "column = map Some y"
    by (simp add: those_eq_Some_iff)
  with ne b show ?thesis by auto
qed

lemma lb_fit_transform_missing:
  assumes "column \<noteq> []" "None \<in> set column"
  shows "lb_fit_transform column = Inl MissingValue"
  using assms by (simp add: lb_fit_transform_def those_eq_None_iff [symmetric])

lemma length_lb_row:
  assumes "classes \<noteq> []"
  shows "length (lb_row classes s) = (if length classes \<le> 2 then 1 else length classes)"
  using assms by (cases "length classes") (auto simp: lb_row_def)

lemma adjust_labels_Inr:
  assumes "adjust_labels bs = Inr rows"
  shows "rows = map (\<lambda>b. b @ replicate (num_labels - length b) 0) bs
    \<and> (\<forall>b\<in>set bs. length b \<le> num_labels)"
  using assms by (auto simp: adjust_labels_eq list_all_iff split: if_splits)

lemma encode_sentiments_Inr:
  assumes "encode_sentiments column = Inr rows"
  shows "\<exists>y. column = map Some y \<and> y \<noteq> [] \<and> length (lb_classes y) \<le> num_labels
    \<and> rows = map (\<lambda>s. lb_row (lb_classes y) s
                        @ replicate (num_labels - length (lb_row (lb_classes y) s)) 0) y"
proof -
  from assms obtain b where b: "lb_fit_transform column = Inr b" and a: "adjust_labels b = Inr rows"
    by (auto simp: encode_sentiments_def split: sum.splits)
  from lb_fit_transform_Inr [OF b] obtain y where y: "column = map Some y" "y \<noteq> []"
    "b = map (lb_row (lb_classes y)) y"
    by blast
  from adjust_labels_Inr [OF a] y(3)
  have rows: "rows = map (\<lambda>s. lb_row (lb_classes y) s
                        @ replicate (num_labels - length (lb_row (lb_classes y) s)) 0) y"
    and fit: "\<forall>s\<in>set y. length (lb_row (lb_classes y) s) \<le> num_labels"
    by (simp_all add: comp_def)
  obtain s where "s \<in> set y"
    using y(2) by (cases y) auto
  with fit have "length (lb_row (lb_classes y) s) \<le> num_labels"
    by simp
  moreover have "lb_classes y \<noteq> []"
    using y(2) by (simp add: lb_classes_Nil_iff)
  ultimately have "length (lb_classes y) \<le> num_labels"
    by (auto simp: length_lb_row num_labels_def split: if_splits)
  with y rows show ?thesis by blast
qed

lemma encode_sentiments_strings:
  assumes "y \<noteq> []" "length (lb_classes y) \<le> num_labels"
  shows "encode_sentiments (map Some y) =
    Inr (map (\<lambda>s. lb_row (lb_classes y) s
                   @ replicate (num_labels - length (lb_row (lb_classes y) s)) 0) y)"
proof -
  have ne: "lb_classes y \<noteq> []"
    using assms(1) by (simp add: lb_classes_Nil_iff)
  have "length (lb_row (lb_classes y) s) \<le> num_labels" for s
    using assms(2) by (simp add: length_lb_row [OF ne] num_labels_def)
  then show ?thesis
    by (simp add: encode_sentiments_def lb_fit_transform_strings [OF assms(1)] adjust_labels_eq
        list_all_iff comp_def)
qed

lemma encode_sentiments_wide:
  assumes "num_labels < length (lb_classes y)"
  shows "encode_sentiments (map Some y) = Inl ValueError"
proof -
  have ne: "lb_classes y \<noteq> []"
    using assms by auto
  then have y: "y \<noteq> []"
    by (simp add: lb_classes_Nil_iff)
  obtain s where s: "s \<in> set y"
    using y by (cases y) auto
  have "\<not> length (lb_row (lb_classes y) s) \<le> num_labels"
    using assms by (simp add: length_lb_row [OF ne] num_labels_def)
  with s have "\<not> list_all (\<lambda>b. length b \<le> num_labels) (map (lb_row (lb_classes y)) y)"
    by (auto simp: list_all_iff)
  then show ?thesis
    by (simp add: encode_sentiments_def lb_fit_transform_strings [OF y] adjust_labels_eq)
qed

lemma encode_sentiments_missing:
  assumes "column \<noteq> []" "None \<in> set column"
  shows "encode_sentiments column = Inl MissingValue"
  using assms by (simp add: encode_sentiments_def lb_fit_transform_missing)

lemma encode_sentiments_empty: "encode_sentiments [] = Inl ValueError"
  by (simp add: encode_sentiments_def lb_fit_transform_def)

lemma padded_lb_row_nth:
  assumes "classes \<noteq> []" "j < num_labels" "length classes \<le> num_labels"
  shows "(lb_row classes s @ replicate (num_labels - length (lb_row classes s)) 0) ! j =
    (if length classes = 1 then 0
     else if length classes = 2 then (if j = 0 \<and> s = classes ! 1 then 1 else 0)
     else (if j < length classes \<and> s = classes ! j then 1 else 0))"
  using assms by (cases "length classes") (auto simp: lb_row_def nth_append)

lemma one_hot_row_Inr:
  assumes "one_hot_row l = Inr row"
  shows "- int num_labels \<le> l \<and> l < int num_labels
    \<and> row = (replicate num_labels 0)[nat (if 0 \<le> l then l else l + int num_labels) := 1]"
proof (cases "- int num_labels \<le> l \<and> l < int num_labels")
  case True
  then show ?thesis
    using assms one_hot_row_in_range [of l] by simp
next
  case False
  then have "one_hot_row l = Inl IndexError"
    by (intro one_hot_row_out_of_range) auto
  with assms show ?thesis by simp
qed

lemma preprocess_labels_Inr:
  assumes "preprocess_labels ls = Inr rows"
  shows "length rows = length ls \<and> (\<forall>i<length ls. one_hot_row (ls ! i) = Inr (rows ! i))"
  using assms
proof (induction ls arbitrary: rows)
  case Nil
  then show ?case by simp
next
  case (Cons l ls)
  from Cons.prems obtain row rest where row: "one_hot_row l = Inr row"
    and rest: "preprocess_labels ls = Inr rest" and rows: "rows = row # rest"
    by (auto split: sum.splits)
  from Cons.IH [OF rest] row rows show ?case
    by (auto simp: nth_Cons split: nat.splits)
qed

lemma preprocess_function_Inr:
  assumes "preprocess_function tk texts label_column = Inr inputs"
  shows "preprocess_labels label_column = Inr (mi_labels inputs)
    \<and> training_encoding tk texts =
        Inr \<lparr>input_ids = mi_input_ids inputs, attention_mask = mi_attention_mask inputs\<rparr>"
  using assms by (auto simp: preprocess_function_def split: sum.splits)

text \<open>
  Claim C4, amended. Every label vector the pipeline produces has exactly length N = 28,
  one vector per record, in the primary path (integer labels) and in the secondary path
  (string labels). In the primary path the entry set is the one numpy indexes with the raw
  integer label. In the secondary path an index refers to a position in the dataset's own
  vocabulary, its distinct sentiments in sorted order, not to the category of the label
  space at that index: with three sentiments or more, entry \<open>j\<close> of a record's vector is
  1 exactly when the record's sentiment is the \<open>j\<close>-th of the vocabulary; with two, only
  entry 0 is ever set, exactly for the records of the second sentiment; with one, every
  entry is 0.
\<close>

theorem label_vectors_have_width_num_labels:
  "(preprocess_labels ls = Inr rows \<longrightarrow>
       length rows = length ls \<and> (\<forall>row\<in>set rows. length row = num_labels)
       \<and> (\<forall>i<length ls. \<forall>j<num_labels. rows ! i ! j =
             (if int j = (if 0 \<le> ls ! i then ls ! i else ls ! i + int num_labels) then 1 else 0)))
   \<and> (encode_sentiments column = Inr rows' \<longrightarrow>
       (\<exists>y. column = map Some y
          \<and> length rows' = length y \<and> (\<forall>row\<in>set rows'. length row = num_labels)
          \<and> sorted (lb_classes y) \<and> distinct (lb_classes y) \<and> set (lb_classes y) = set y
          \<and> (\<forall>i<length y. \<forall>j<num_labels. rows' ! i ! j =
               (if length (lb_classes y) = 1 then 0
                else if length (lb_classes y) = 2
                  then (if j = 0 \<and> y ! i = lb_classes y ! 1 then 1 else 0)
                else (if j < length (lb_classes y) \<and> y ! i = lb_classes y ! j then 1 else 0)))))"
proof (rule conjI; rule impI)
  assume p: "preprocess_labels ls = Inr rows"
  have len: "length rows = length ls"
    using preprocess_labels_Inr [OF p] by simp
  have row: "one_hot_row (ls ! i) = Inr (rows ! i)" if "i < length ls" for i
    using preprocess_labels_Inr [OF p] that by simp
  have width: "\<forall>row\<in>set rows. length row = num_labels"
  proof
    fix r assume "r \<in> set rows"
    then obtain i where "i < length rows" "r = rows ! i"
      by (auto simp: in_set_conv_nth)
    with row [of i] len one_hot_row_Inr [of "ls ! i" r]
    show "length r = num_labels" by simp
  qed
  have "rows ! i ! j =
      (if int j = (if 0 \<le> ls ! i then ls ! i else ls ! i + int num_labels) then 1 else 0)"
    if i: "i < length ls" and j: "j < num_labels" for i j
  proof -
    define x where "x = (if 0 \<le> ls ! i then ls ! i else ls ! i + int num_labels)"
    from one_hot_row_Inr [OF row [OF i]]
    have r: "rows ! i = (replicate num_labels 0)[nat x := 1]" and x: "0 \<le> x"
      by (auto simp: x_def)
    have "(nat x = j) = (int j = x)"
      using x by auto
    with r j show ?thesis
      unfolding x_def [symmetric] by (simp add: nth_list_update)
  qed
  with len width show "length rows = length ls \<and> (\<forall>row\<in>set rows. length row = num_labels)
       \<and> (\<forall>i<length ls. \<forall>j<num_labels. rows ! i ! j =
             (if int j = (if 0 \<le> ls ! i then ls ! i else ls ! i + int num_labels) then 1 else 0))"
    by blast
next
  assume e: "encode_sentiments column = Inr rows'"
  from encode_sentiments_Inr [OF e] obtain y where y: "column = map Some y" "y \<noteq> []"
    and fit: "length (lb_classes y) \<le> num_labels"
    and rows: "rows' = map (\<lambda>s. lb_row (lb_classes y) s
                        @ replicate (num_labels - length (lb_row (lb_classes y) s)) 0) y"
    by blast
  have ne: "lb_classes y \<noteq> []"
    using y(2) by (simp add: lb_classes_Nil_iff)
  have len: "length rows' = length y"
    using rows by simp
  have "length (lb_row (lb_classes y) s) \<le> num_labels" for s
    using fit by (simp add: length_lb_row [OF ne] num_labels_def)
  then have width: "\<forall>row\<in>set rows'. length row = num_labels"
    using rows by auto
  have ent: "\<forall>i<length y. \<forall>j<num_labels. rows' ! i ! j =
               (if length (lb_classes y) = 1 then 0
                else if length (lb_classes y) = 2
                  then (if j = 0 \<and> y ! i = lb_classes y ! 1 then 1 else 0)
                else (if j < length (lb_classes y) \<and> y ! i = lb_classes y ! j then 1 else 0))"
    using rows padded_lb_row_nth [OF ne _ fit] by simp
  from y(1) len width ent lb_classes_props [of y]
  show "\<exists>y. column = map Some y
          \<and> length rows' = length y \<and> (\<forall>row\<in>set rows'. length row = num_labels)
          \<and> sorted (lb_classes y) \<and> distinct (lb_classes y) \<and> set (lb_classes y) = set y
          \<and> (\<forall>i<length y. \<forall>j<num_labels. rows' ! i ! j =
               (if length (lb_classes y) = 1 then 0
                else if length (lb_classes y) = 2
                  then (if j = 0 \<and> y ! i = lb_classes y ! 1 then 1 else 0)
                else (if j < length (lb_classes y) \<and> y ! i = lb_classes y ! j then 1 else 0)))"
    by blast
qed

lemma encode_sentiments_example:
  "encode_sentiments [Some ''anger'', Some ''joy'', Some ''love''] =
     Inr [(replicate 28 0)[0 := 1], (replicate 28 0)[1 := 1], (replicate 28 0)[2 := 1]]"
  by code_simp

lemma encode_sentiments_two_classes_example:
  "encode_sentiments [Some ''joy'', Some ''anger'', Some ''joy''] =
     Inr [(replicate 28 0)[0 := 1], replicate 28 0, (replicate 28 0)[0 := 1]]"
  by code_simp

lemma lb_classes_example:
  "lb_classes [''anger'', ''joy'', ''love''] = [''anger'', ''joy'', ''love'']"
  by code_simp

lemma lb_classes_two_classes_example:
  "lb_classes [''joy'', ''anger'', ''joy''] = [''anger'', ''joy'']"
  by code_simp


theorem label_vectors_have_width_num_labels_witness:
  "length (projr (preprocess_labels [1, 3])) = 2
   \<and> length (projr (preprocess_labels [1, 3]) ! 1) = num_labels
   \<and> projr (preprocess_labels [1, 3]) ! 1 ! 3 = 1
   \<and> projr (preprocess_labels [1, 3]) ! 1 ! 1 = 0
   \<and> length (projr (encode_sentiments [Some ''anger'', Some ''joy'', Some ''love''])) = 3
   \<and> length (projr (encode_sentiments [Some ''anger'', Some ''joy'', Some ''love'']) ! 1)
       = num_labels
   \<and> projr (encode_sentiments [Some ''anger'', Some ''joy'', Some ''love'']) ! 1 ! 1 = 1
   \<and> projr (encode_sentiments [Some ''anger'', Some ''joy'', Some ''love'']) ! 1 ! 5 = 0
   \<and> projr (encode_sentiments [Some ''joy'', Some ''anger'', Some ''joy'']) ! 0 ! 0 = 1
   \<and> projr (encode_sentiments [Some ''joy'', Some ''anger'', Some ''joy'']) ! 0 ! 1 = 0
   \<and> projr (encode_sentiments [Some ''joy'', Some ''anger'', Some ''joy'']) ! 1 ! 0 = 0"
proof -
  let ?ls = "[1, 3 :: int]"
  let ?c3 = "[Some ''anger'', Some ''joy'', Some ''love'']"
  let ?y3 = "[''anger'', ''joy'', ''love'']"
  let ?c2 = "[Some ''joy'', Some ''anger'', Some ''joy'']"
  let ?y2 = "[''joy'', ''anger'', ''joy'']"
  obtain rows where p: "preprocess_labels ?ls = Inr rows"
    by (auto simp: one_hot_row_def np_index_def num_labels_def)
  obtain rows3 where e3: "encode_sentiments ?c3 = Inr rows3"
    using encode_sentiments_example by blast
  obtain rows2 where e2: "encode_sentiments ?c2 = Inr rows2"
    using encode_sentiments_two_classes_example by blast
  note t3 = label_vectors_have_width_num_labels [of ?ls rows ?c3 rows3]
  note t2 = label_vectors_have_width_num_labels [of ?ls rows ?c2 rows2]
  from mp [OF conjunct1 [OF t3] p]
  have l: "length rows = length ?ls" and w: "\<forall>row\<in>set rows. length row = num_labels"
    and ent: "\<forall>i<length ?ls. \<forall>j<num_labels. rows ! i ! j =
        (if int j = (if 0 \<le> ?ls ! i then ?ls ! i else ?ls ! i + int num_labels) then 1 else 0)"
    by blast+
  from l w have w1: "length (rows ! 1) = num_labels"
    by simp
  from ent have "\<forall>j<num_labels. rows ! 1 ! j = (if int j = 3 then 1 else 0)"
    by simp
  then have e1: "rows ! 1 ! 3 = 1" "rows ! 1 ! 1 = 0"
    by (simp_all add: num_labels_def)
  from mp [OF conjunct2 [OF t3] e3] obtain y where y: "?c3 = map Some y"
    and l3: "length rows3 = length y"
    and w3: "\<forall>row\<in>set rows3. length row = num_labels"
    and ent3: "\<forall>i<length y. \<forall>j<num_labels. rows3 ! i ! j =
               (if length (lb_classes y) = 1 then 0
                else if length (lb_classes y) = 2
                  then (if j = 0 \<and> y ! i = lb_classes y ! 1 then 1 else 0)
                else (if j < length (lb_classes y) \<and> y ! i = lb_classes y ! j then 1 else 0))"
    by (elim exE conjE)
  from y have y3: "y = ?y3"
    by auto
  from l3 w3 have wl3: "length rows3 = 3" "length (rows3 ! 1) = num_labels"
    unfolding y3 by simp_all
  from ent3 have "\<forall>j<num_labels. rows3 ! 1 ! j = (if j < 3 \<and> ''joy'' = ?y3 ! j then 1 else 0)"
    unfolding y3 lb_classes_example by simp
  then have e3': "rows3 ! 1 ! 1 = 1" "rows3 ! 1 ! 5 = 0"
    by (simp_all add: num_labels_def)
  from mp [OF conjunct2 [OF t2] e2] obtain z where z: "?c2 = map Some z"
    and ent2: "\<forall>i<length z. \<forall>j<num_labels. rows2 ! i ! j =
               (if length (lb_classes z) = 1 then 0
                else if length (lb_classes z) = 2
                  then (if j = 0 \<and> z ! i = lb_classes z ! 1 then 1 else 0)
                else (if j < length (lb_classes z) \<and> z ! i = lb_classes z ! j then 1 else 0))"
    by (elim exE conjE)
  from z have z2: "z = ?y2"
    by auto
  from ent2 have "\<forall>i<3. \<forall>j<num_labels. rows2 ! i ! j =
      (if j = 0 \<and> ?y2 ! i = ''joy'' then 1 else 0)"
    unfolding z2 lb_classes_two_classes_example by simp
  then have e2': "rows2 ! 0 ! 0 = 1" "rows2 ! 0 ! 1 = 0" "rows2 ! 1 ! 0 = 0"
    by (simp_all add: num_labels_def)
  from p e3 e2 l w1 e1 wl3 e3' e2' show ?thesis
    by simp
qed

text \<open>
  Claim C4, as stated, with index \<open>i\<close> always the same category of the label space: in
  the secondary path a record with the sentiment anger, the category at index 2 of the
  label space, gets the vector with index 0 set, which decodes to admiration.
\<close>

theorem secondary_labels_positional_counterexample:
  "encode_sentiments [Some ''anger'', Some ''joy'', Some ''love''] =
     Inr [(replicate 28 0)[0 := 1], (replicate 28 0)[1 := 1], (replicate 28 0)[2 := 1]]
   \<and> decode ((replicate 28 0)[0 := 1]) threshold = [''admiration'']
   \<and> emotion_labels ! 2 = ''anger''"
  by code_simp

subsection \<open>The custom dataset: one example per record\<close>

lemma length_pad_batch:
  "length (input_ids (pad_batch tk padding max_length texts)) = length texts"
  "length (attention_mask (pad_batch tk padding max_length texts)) = length texts"
  by (simp_all add: pad_batch_def Let_def)

lemma input_ids_pad_batch_nth:
  assumes "i < length texts"
  shows "input_ids (pad_batch tk padding max_length texts) ! i =
     encode_one tk max_length (texts ! i)
       @ replicate (pad_length padding max_length (map (encode_one tk max_length) texts)
                      - length (encode_one tk max_length (texts ! i))) (pad_token_id tk)"
  using assms by (simp add: pad_batch_def Let_def)

lemma attention_mask_pad_batch_nth:
  assumes "i < length texts"
  shows "attention_mask (pad_batch tk padding max_length texts) ! i =
     replicate (length (encode_one tk max_length (texts ! i))) 1
       @ replicate (pad_length padding max_length (map (encode_one tk max_length) texts)
                      - length (encode_one tk max_length (texts ! i))) 0"
  using assms by (simp add: pad_batch_def Let_def)

lemma inference_encoding_nonempty:
  assumes "texts \<noteq> []"
  shows "inference_encoding tk texts = Inr (pad_batch tk PadLongest 128 texts)"
  using assms by (simp add: inference_encoding_def call_tokenizer_def)

lemma training_encoding_nonempty:
  assumes "texts \<noteq> []"
  shows "training_encoding tk texts = Inr (pad_batch tk PadMaxLength 128 texts)"
  using assms by (simp add: training_encoding_def call_tokenizer_def)

lemma encoding_empty:
  "inference_encoding tk [] = Inl IndexError" "training_encoding tk [] = Inl IndexError"
  by (simp_all add: inference_encoding_def training_encoding_def call_tokenizer_def)

lemma tokenize_column_strings:
  "tokenize_column tk (map Some ts) = inference_encoding tk ts"
proof -
  have "those (map Some ts) = Some ts"
    by (simp add: those_eq_Some_iff)
  then show ?thesis
    by (simp add: tokenize_column_def)
qed

lemma tokenize_column_missing:
  assumes "None \<in> set column"
  shows "tokenize_column tk column = Inl MissingValue"
  using assms by (simp add: tokenize_column_def those_eq_None_iff [symmetric])

lemma tokenize_column_Inr:
  assumes "tokenize_column tk column = Inr enc"
  shows "\<exists>ts. column = map Some ts \<and> ts \<noteq> [] \<and> enc = pad_batch tk PadLongest 128 ts"
proof -
  from assms obtain ts where ts: "those column = Some ts" and e: "inference_encoding tk ts = Inr enc"
    by (auto simp: tokenize_column_def split: option.splits)
  from e have "ts \<noteq> []"
    by (auto simp: encoding_empty)
  with e ts show ?thesis
    by (auto simp: those_eq_Some_iff inference_encoding_nonempty)
qed

lemma get_row_nat:
  assumes "i < length rows"
  shows "get_row rows (int i) = Inr (rows ! i)"
  using assms by (simp add: get_row_def np_index_def)

lemma build_encoded_inputs_strings:
  assumes "new_dataset \<noteq> []" "map sentiment new_dataset = map Some ys"
    "map content new_dataset = map Some ts" "length (lb_classes ys) \<le> num_labels"
  shows "build_encoded_inputs tk new_dataset =
    Inr \<lparr>mi_input_ids = input_ids (pad_batch tk PadLongest 128 ts),
         mi_attention_mask = attention_mask (pad_batch tk PadLongest 128 ts),
         mi_labels = map (\<lambda>s. lb_row (lb_classes ys) s
                        @ replicate (num_labels - length (lb_row (lb_classes ys) s)) 0) ys\<rparr>"
proof -
  from assms(1,2) have ys: "ys \<noteq> []"
    by auto
  from assms(1,3) have ts: "ts \<noteq> []"
    by auto
  show ?thesis
    by (simp add: build_encoded_inputs_def assms(2,3) encode_sentiments_strings [OF ys assms(4)]
        tokenize_column_strings inference_encoding_nonempty [OF ts])
qed

lemma build_encoded_inputs_Inr:
  assumes "build_encoded_inputs tk new_dataset = Inr e"
  shows "\<exists>ys ts. new_dataset \<noteq> [] \<and> map sentiment new_dataset = map Some ys
    \<and> map content new_dataset = map Some ts \<and> length (lb_classes ys) \<le> num_labels"
proof -
  from assms obtain adjusted enc
    where a: "encode_sentiments (map sentiment new_dataset) = Inr adjusted"
      and t: "tokenize_column tk (map content new_dataset) = Inr enc"
    by (auto simp: build_encoded_inputs_def split: sum.splits)
  from encode_sentiments_Inr [OF a] obtain ys where "map sentiment new_dataset = map Some ys"
    "ys \<noteq> []" "length (lb_classes ys) \<le> num_labels"
    by blast
  moreover from tokenize_column_Inr [OF t] obtain ts where "map content new_dataset = map Some ts"
    by blast
  ultimately show ?thesis
    by auto
qed


text \<open>
  Claim C10, amended. The custom-dataset cell never skips or drops a record: whenever it
  builds the dataset, the length of the dataset is the number of records of the frame, and
  item \<open>i\<close> holds the padded tokens of the text of record \<open>i\<close> and the zero-padded
  binarized sentiment of record \<open>i\<close>. It builds the dataset exactly when the frame is not
  empty, no sentiment and no text is missing, and there are at most N distinct sentiments.
  A record with an empty text is not kept as an example: the empty field is read as a
  missing value and the tokenizer raises. The cell raises as well on an empty frame
  (ValueError), on a missing sentiment, and on more than N distinct sentiments
  (ValueError).
\<close>

theorem dataset_adapter_keeps_every_record:
  "(build_encoded_inputs tk new_dataset = Inr e \<longrightarrow>
      (\<exists>ys ts. map sentiment new_dataset = map Some ys \<and> map content new_dataset = map Some ts
         \<and> new_dataset \<noteq> [] \<and> length (lb_classes ys) \<le> num_labels
         \<and> custom_dataset_len e = length new_dataset
         \<and> length (mi_attention_mask e) = length new_dataset
         \<and> length (mi_labels e) = length new_dataset
         \<and> (\<forall>i<length new_dataset.
               \<exists>ex. custom_dataset_getitem e (int i) = Inr ex
                 \<and> token_ids ex = encode_one tk 128 (ts ! i)
                     @ replicate (pad_length PadLongest 128 (map (encode_one tk 128) ts)
                                    - length (encode_one tk 128 (ts ! i))) (pad_token_id tk)
                 \<and> label_vector ex = lb_row (lb_classes ys) (ys ! i)
                     @ replicate (num_labels - length (lb_row (lb_classes ys) (ys ! i))) 0
                 \<and> length (label_vector ex) = num_labels)))
   \<and> (new_dataset \<noteq> [] \<and> map sentiment new_dataset = map Some ys'
        \<and> map content new_dataset = map Some ts' \<and> length (lb_classes ys') \<le> num_labels \<longrightarrow>
        (\<exists>e'. build_encoded_inputs tk new_dataset = Inr e'))
   \<and> (new_dataset = [] \<longrightarrow> build_encoded_inputs tk new_dataset = Inl ValueError)
   \<and> (new_dataset \<noteq> [] \<and> None \<in> set (map sentiment new_dataset) \<longrightarrow>
        build_encoded_inputs tk new_dataset = Inl MissingValue)
   \<and> (map sentiment new_dataset = map Some ys' \<and> num_labels < length (lb_classes ys') \<longrightarrow>
        build_encoded_inputs tk new_dataset = Inl ValueError)
   \<and> (new_dataset \<noteq> [] \<and> map sentiment new_dataset = map Some ys'
        \<and> length (lb_classes ys') \<le> num_labels \<and> None \<in> set (map content new_dataset) \<longrightarrow>
        build_encoded_inputs tk new_dataset = Inl MissingValue)"
proof (intro conjI)
  show "build_encoded_inputs tk new_dataset = Inr e \<longrightarrow>
      (\<exists>ys ts. map sentiment new_dataset = map Some ys \<and> map content new_dataset = map Some ts
         \<and> new_dataset \<noteq> [] \<and> length (lb_classes ys) \<le> num_labels
         \<and> custom_dataset_len e = length new_dataset
         \<and> length (mi_attention_mask e) = length new_dataset
         \<and> length (mi_labels e) = length new_dataset
         \<and> (\<forall>i<length new_dataset.
               \<exists>ex. custom_dataset_getitem e (int i) = Inr ex
                 \<and> token_ids ex = encode_one tk 128 (ts ! i)
                     @ replicate (pad_length PadLongest 128 (map (encode_one tk 128) ts)
                                    - length (encode_one tk 128 (ts ! i))) (pad_token_id tk)
                 \<and> label_vector ex = lb_row (lb_classes ys) (ys ! i)
                     @ replicate (num_labels - length (lb_row (lb_classes ys) (ys ! i))) 0
                 \<and> length (label_vector ex) = num_labels))"
  proof
    assume b: "build_encoded_inputs tk new_dataset = Inr e"
    from build_encoded_inputs_Inr [OF b] obtain ys ts where ne: "new_dataset \<noteq> []"
      and ys: "map sentiment new_dataset = map Some ys"
      and ts: "map content new_dataset = map Some ts"
      and fit: "length (lb_classes ys) \<le> num_labels"
      by blast
    have lys: "length ys = length new_dataset" and lts: "length ts = length new_dataset"
      using ys ts by (metis length_map)+
    have cl: "lb_classes ys \<noteq> []"
      using ne lys by (auto simp: lb_classes_Nil_iff)
    have e: "e = \<lparr>mi_input_ids = input_ids (pad_batch tk PadLongest 128 ts),
         mi_attention_mask = attention_mask (pad_batch tk PadLongest 128 ts),
         mi_labels = map (\<lambda>s. lb_row (lb_classes ys) s
                        @ replicate (num_labels - length (lb_row (lb_classes ys) s)) 0) ys\<rparr>"
      using b build_encoded_inputs_strings [OF ne ys ts fit, of tk] by simp
    have w: "length (lb_row (lb_classes ys) s) \<le> num_labels" for s
      using fit by (simp add: length_lb_row [OF cl] num_labels_def)
    have item: "\<exists>ex. custom_dataset_getitem e (int i) = Inr ex
                 \<and> token_ids ex = encode_one tk 128 (ts ! i)
                     @ replicate (pad_length PadLongest 128 (map (encode_one tk 128) ts)
                                    - length (encode_one tk 128 (ts ! i))) (pad_token_id tk)
                 \<and> label_vector ex = lb_row (lb_classes ys) (ys ! i)
                     @ replicate (num_labels - length (lb_row (lb_classes ys) (ys ! i))) 0
                 \<and> length (label_vector ex) = num_labels"
      if i: "i < length new_dataset" for i
      using i lys lts w [of "ys ! i"]
      by (simp add: e custom_dataset_getitem_def get_row_nat length_pad_batch
          input_ids_pad_batch_nth)
    have "custom_dataset_len e = length new_dataset"
      "length (mi_attention_mask e) = length new_dataset"
      "length (mi_labels e) = length new_dataset"
      using lys lts by (simp_all add: e custom_dataset_len_def length_pad_batch)
    with ys ts ne fit item show "\<exists>ys ts. map sentiment new_dataset = map Some ys
         \<and> map content new_dataset = map Some ts
         \<and> new_dataset \<noteq> [] \<and> length (lb_classes ys) \<le> num_labels
         \<and> custom_dataset_len e = length new_dataset
         \<and> length (mi_attention_mask e) = length new_dataset
         \<and> length (mi_labels e) = length new_dataset
         \<and> (\<forall>i<length new_dataset.
               \<exists>ex. custom_dataset_getitem e (int i) = Inr ex
                 \<and> token_ids ex = encode_one tk 128 (ts ! i)
                     @ replicate (pad_length PadLongest 128 (map (encode_one tk 128) ts)
                                    - length (encode_one tk 128 (ts ! i))) (pad_token_id tk)
                 \<and> label_vector ex = lb_row (lb_classes ys) (ys ! i)
                     @ replicate (num_labels - length (lb_row (lb_classes ys) (ys ! i))) 0
                 \<and> length (label_vector ex) = num_labels)"
      by blast
  qed
next
  show "new_dataset \<noteq> [] \<and> map sentiment new_dataset = map Some ys'
        \<and> map content new_dataset = map Some ts' \<and> length (lb_classes ys') \<le> num_labels \<longrightarrow>
        (\<exists>e'. build_encoded_inputs tk new_dataset = Inr e')"
    using build_encoded_inputs_strings [of new_dataset ys' ts' tk] by blast
next
  show "new_dataset = [] \<longrightarrow> build_encoded_inputs tk new_dataset = Inl ValueError"
    by (simp add: build_encoded_inputs_def encode_sentiments_empty)
next
  show "new_dataset \<noteq> [] \<and> None \<in> set (map sentiment new_dataset) \<longrightarrow>
        build_encoded_inputs tk new_dataset = Inl MissingValue"
    using encode_sentiments_missing [of "map sentiment new_dataset"]
    by (simp add: build_encoded_inputs_def)
next
  show "map sentiment new_dataset = map Some ys' \<and> num_labels < length (lb_classes ys') \<longrightarrow>
        build_encoded_inputs tk new_dataset = Inl ValueError"
    using encode_sentiments_wide [of ys'] by (simp add: build_encoded_inputs_def)
next
  show "new_dataset \<noteq> [] \<and> map sentiment new_dataset = map Some ys'
        \<and> length (lb_classes ys') \<le> num_labels \<and> None \<in> set (map content new_dataset) \<longrightarrow>
        build_encoded_inputs tk new_dataset = Inl MissingValue"
  proof
    assume a: "new_dataset \<noteq> [] \<and> map sentiment new_dataset = map Some ys'
        \<and> length (lb_classes ys') \<le> num_labels \<and> None \<in> set (map content new_dataset)"
    then have "ys' \<noteq> []"
      by auto
    with a have "encode_sentiments (map sentiment new_dataset) =
        Inr (map (\<lambda>s. lb_row (lb_classes ys') s
                   @ replicate (num_labels - length (lb_row (lb_classes ys') s)) 0) ys')"
      using encode_sentiments_strings [of ys'] by simp
    with a show "build_encoded_inputs tk new_dataset = Inl MissingValue"
      using tokenize_column_missing [of "map content new_dataset" tk]
      by (simp add: build_encoded_inputs_def)
  qed
qed


lemma small_dataset_classes:
  "lb_classes [''joy'', ''anger'', ''love''] = [''anger'', ''joy'', ''love'']"
  by code_simp

theorem dataset_adapter_keeps_every_record_witness:
  "custom_dataset_len (projr (build_encoded_inputs
       \<lparr>tokenize = map of_char, bos_token_id = 0, eos_token_id = 2, pad_token_id = 1\<rparr>
       [\<lparr>sentiment = Some ''joy'', content = Some ''hi''\<rparr>,
        \<lparr>sentiment = Some ''anger'', content = Some ''ok''\<rparr>,
        \<lparr>sentiment = Some ''love'', content = Some ''hello''\<rparr>])) = 3
   \<and> token_ids (projr (custom_dataset_getitem (projr (build_encoded_inputs
       \<lparr>tokenize = map of_char, bos_token_id = 0, eos_token_id = 2, pad_token_id = 1\<rparr>
       [\<lparr>sentiment = Some ''joy'', content = Some ''hi''\<rparr>,
        \<lparr>sentiment = Some ''anger'', content = Some ''ok''\<rparr>,
        \<lparr>sentiment = Some ''love'', content = Some ''hello''\<rparr>])) 1))
       = [0, 111, 107, 2, 1, 1, 1]
   \<and> label_vector (projr (custom_dataset_getitem (projr (build_encoded_inputs
       \<lparr>tokenize = map of_char, bos_token_id = 0, eos_token_id = 2, pad_token_id = 1\<rparr>
       [\<lparr>sentiment = Some ''joy'', content = Some ''hi''\<rparr>,
        \<lparr>sentiment = Some ''anger'', content = Some ''ok''\<rparr>,
        \<lparr>sentiment = Some ''love'', content = Some ''hello''\<rparr>])) 1))
       = 1 # 0 # 0 # replicate 25 0
   \<and> build_encoded_inputs
       \<lparr>tokenize = map of_char, bos_token_id = 0, eos_token_id = 2, pad_token_id = 1\<rparr> []
       = Inl ValueError
   \<and> build_encoded_inputs
       \<lparr>tokenize = map of_char, bos_token_id = 0, eos_token_id = 2, pad_token_id = 1\<rparr>
       [\<lparr>sentiment = Some ''joy'', content = Some ''hi''\<rparr>,
        \<lparr>sentiment = Some ''anger'', content = None\<rparr>,
        \<lparr>sentiment = Some ''love'', content = Some ''hello''\<rparr>]
       = Inl MissingValue
   \<and> build_encoded_inputs
       \<lparr>tokenize = map of_char, bos_token_id = 0, eos_token_id = 2, pad_token_id = 1\<rparr>
       [\<lparr>sentiment = Some ''joy'', content = Some ''hi''\<rparr>,
        \<lparr>sentiment = None, content = Some ''ok''\<rparr>]
       = Inl MissingValue"
proof -
  let ?tk = "\<lparr>tokenize = map of_char, bos_token_id = 0, eos_token_id = 2, pad_token_id = 1\<rparr>"
  let ?ds = "[\<lparr>sentiment = Some ''joy'', content = Some ''hi''\<rparr>,
        \<lparr>sentiment = Some ''anger'', content = Some ''ok''\<rparr>,
        \<lparr>sentiment = Some ''love'', content = Some ''hello''\<rparr>]"
  let ?dt = "[\<lparr>sentiment = Some ''joy'', content = Some ''hi''\<rparr>,
        \<lparr>sentiment = Some ''anger'', content = None\<rparr>,
        \<lparr>sentiment = Some ''love'', content = Some ''hello''\<rparr>]"
  let ?dn = "[\<lparr>sentiment = Some ''joy'', content = Some ''hi''\<rparr>,
        \<lparr>sentiment = None, content = Some ''ok''\<rparr>]"
  let ?ys = "[''joy'', ''anger'', ''love'']"
  let ?ts = "[''hi'', ''ok'', ''hello'']"
  note t = dataset_adapter_keeps_every_record
  have empty: "build_encoded_inputs ?tk [] = Inl ValueError"
    using t [where tk = ?tk and new_dataset = "[]"] by blast
  have "?dn \<noteq> [] \<and> None \<in> set (map sentiment ?dn)"
    by simp
  with t [where tk = ?tk and new_dataset = ?dn]
  have nosent: "build_encoded_inputs ?tk ?dn = Inl MissingValue"
    by blast
  have "?dt \<noteq> [] \<and> map sentiment ?dt = map Some ?ys
      \<and> length (lb_classes ?ys) \<le> num_labels \<and> None \<in> set (map content ?dt)"
    unfolding small_dataset_classes by (simp add: num_labels_def)
  with t [where tk = ?tk and new_dataset = ?dt and ys' = ?ys]
  have notext: "build_encoded_inputs ?tk ?dt = Inl MissingValue"
    by blast
  have ok: "?ds \<noteq> [] \<and> map sentiment ?ds = map Some ?ys
      \<and> map content ?ds = map Some ?ts \<and> length (lb_classes ?ys) \<le> num_labels"
    unfolding small_dataset_classes by (simp add: num_labels_def)
  with t [where tk = ?tk and new_dataset = ?ds and ys' = ?ys and ts' = ?ts]
  obtain e where e: "build_encoded_inputs ?tk ?ds = Inr e"
    by blast
  from mp [OF conjunct1 [OF t [where tk = ?tk and new_dataset = ?ds and e = e]] e]
  obtain ys ts where ys: "map sentiment ?ds = map Some ys" and ts: "map content ?ds = map Some ts"
    and len: "custom_dataset_len e = length ?ds"
    and items: "\<forall>i<length ?ds. \<exists>ex. custom_dataset_getitem e (int i) = Inr ex
        \<and> token_ids ex = encode_one ?tk 128 (ts ! i)
            @ replicate (pad_length PadLongest 128 (map (encode_one ?tk 128) ts)
                           - length (encode_one ?tk 128 (ts ! i))) (pad_token_id ?tk)
        \<and> label_vector ex = lb_row (lb_classes ys) (ys ! i)
            @ replicate (num_labels - length (lb_row (lb_classes ys) (ys ! i))) 0
        \<and> length (label_vector ex) = num_labels"
    by (elim exE conjE)
  from ys ts have yt: "ys = ?ys" "ts = ?ts"
    by auto
  have one: "1 < length ?ds"
    by simp
  from items one obtain ex where ex: "custom_dataset_getitem e (int 1) = Inr ex"
    and ids: "token_ids ex = encode_one ?tk 128 (ts ! 1)
            @ replicate (pad_length PadLongest 128 (map (encode_one ?tk 128) ts)
                           - length (encode_one ?tk 128 (ts ! 1))) (pad_token_id ?tk)"
    and lv: "label_vector ex = lb_row (lb_classes ys) (ys ! 1)
            @ replicate (num_labels - length (lb_row (lb_classes ys) (ys ! 1))) 0"
    by blast
  from ids have ids': "token_ids ex = [0, 111, 107, 2, 1, 1, 1]"
    unfolding yt by (simp add: encode_one_def pad_length_def numeral_eq_Suc)
  from lv have lv': "label_vector ex = 1 # 0 # 0 # replicate 25 0"
    unfolding yt small_dataset_classes by (simp add: lb_row_def num_labels_def)
  from e len ex ids' lv' empty nosent notext show ?thesis
    by simp
qed

text \<open>
  Claim C10, as stated, with one encoded example per record for every sequence of records:
  29 records with 29 distinct sentiments give rows of width 29, the adjustment raises, and
  there is no dataset.
\<close>

theorem dataset_adapter_wide_vocabulary_counterexample:
  "build_encoded_inputs
     \<lparr>tokenize = map of_char, bos_token_id = 0, eos_token_id = 2, pad_token_id = 1\<rparr>
     [\<lparr>sentiment = Some ''a'', content = Some ''x''\<rparr>, \<lparr>sentiment = Some ''b'', content = Some ''x''\<rparr>,
      \<lparr>sentiment = Some ''c'', content = Some ''x''\<rparr>, \<lparr>sentiment = Some ''d'', content = Some ''x''\<rparr>,
      \<lparr>sentiment = Some ''e'', content = Some ''x''\<rparr>, \<lparr>sentiment = Some ''f'', content = Some ''x''\<rparr>,
      \<lparr>sentiment = Some ''g'', content = Some ''x''\<rparr>, \<lparr>sentiment = Some ''h'', content = Some ''x''\<rparr>,
      \<lparr>sentiment = Some ''i'', content = Some ''x''\<rparr>, \<lparr>sentiment = Some ''j'', content = Some ''x''\<rparr>,
      \<lparr>sentiment = Some ''k'', content = Some ''x''\<rparr>, \<lparr>sentiment = Some ''l'', content = Some ''x''\<rparr>,
      \<lparr>sentiment = Some ''m'', content = Some ''x''\<rparr>, \<lparr>sentiment = Some ''n'', content = Some ''x''\<rparr>,
      \<lparr>sentiment = Some ''o'', content = Some ''x''\<rparr>, \<lparr>sentiment = Some ''p'', content = Some ''x''\<rparr>,
      \<lparr>sentiment = Some ''q'', content = Some ''x''\<rparr>, \<lparr>sentiment = Some ''r'', content = Some ''x''\<rparr>,
      \<lparr>sentiment = Some ''s'', content = Some ''x''\<rparr>, \<lparr>sentiment = Some ''t'', content = Some ''x''\<rparr>,
      \<lparr>sentiment = Some ''u'', content = Some ''x''\<rparr>, \<lparr>sentiment = Some ''v'', content = Some ''x''\<rparr>,
      \<lparr>sentiment = Some ''w'', content = Some ''x''\<rparr>, \<lparr>sentiment = Some ''x'', content = Some ''x''\<rparr>,
      \<lparr>sentiment = Some ''y'', content = Some ''x''\<rparr>, \<lparr>sentiment = Some ''z'', content = Some ''x''\<rparr>,
      \<lparr>sentiment = Some ''A'', content = Some ''x''\<rparr>, \<lparr>sentiment = Some ''B'', content = Some ''x''\<rparr>,
      \<lparr>sentiment = Some ''C'', content = Some ''x''\<rparr>]
   = Inl ValueError"
  by code_simp

subsection \<open>Probabilities and results of the inference cell\<close>


lemma sigmoid_zero: "sigmoid 0 = 1 / 2"
  by (simp add: sigmoid_def)

lemma display_results_ok:
  assumes "i + length texts \<le> length probs"
  shows "\<exists>rs. display_results t probs i texts = Inr rs \<and> length rs = length texts
    \<and> (\<forall>k<length texts. rs ! k =
          \<lparr>pr_text = texts ! k, pr_probabilities = probs ! (i + k),
           pr_predicted_labels = decode (probs ! (i + k)) t\<rparr>)"
  using assms
proof (induction texts arbitrary: i)
  case Nil
  then show ?case by simp
next
  case (Cons s rest)
  from Cons.prems have "Suc i + length rest \<le> length probs" and i: "i < length probs"
    by simp_all
  from Cons.IH [OF this(1)] obtain rs where rs: "display_results t probs (Suc i) rest = Inr rs"
    "length rs = length rest"
    "\<forall>k<length rest. rs ! k =
          \<lparr>pr_text = rest ! k, pr_probabilities = probs ! (Suc i + k),
           pr_predicted_labels = decode (probs ! (Suc i + k)) t\<rparr>"
    by blast
  then show ?case
    using i by (auto simp: nth_Cons split: nat.splits)
qed

lemma display_results_Inr:
  assumes "display_results t probs i texts = Inr rs"
  shows "i + length texts \<le> length probs \<or> texts = []"
  using assms
proof (induction texts arbitrary: i rs)
  case Nil
  then show ?case by simp
next
  case (Cons s rest)
  from Cons.prems obtain rs' where i: "i < length probs"
    and r: "display_results t probs (Suc i) rest = Inr rs'"
    by (auto split: if_splits sum.splits)
  from Cons.IH [OF r] i show ?case
    by auto
qed

lemma sigmoid_strict_mono:
  assumes "x < y"
  shows "sigmoid x < sigmoid y"
proof -
  have lt: "1 + exp (- y) < 1 + exp (- x)"
    using assms by simp
  have px: "0 < 1 + exp (- x)" and py: "0 < 1 + exp (- y)"
    by (simp_all add: add_pos_pos)
  from lt px py show ?thesis
    unfolding sigmoid_def by (intro divide_strict_left_mono mult_pos_pos) simp_all
qed

lemma sigmoid_gt_half_iff: "1 / 2 < sigmoid x \<longleftrightarrow> 0 < x"
proof
  assume h: "1 / 2 < sigmoid x"
  show "0 < x"
  proof (rule ccontr)
    assume "\<not> 0 < x"
    then have "x = 0 \<or> x < 0" by auto
    then have "sigmoid x \<le> sigmoid 0"
      using sigmoid_strict_mono [of x 0] by auto
    with h show False
      by (simp add: sigmoid_zero)
  qed
next
  assume "0 < x"
  from sigmoid_strict_mono [OF this] show "1 / 2 < sigmoid x"
    by (simp add: sigmoid_zero)
qed

lemma display_results_Inl:
  assumes "display_results t probs i texts = Inl e"
  shows "e = IndexError"
  using assms
proof (induction texts arbitrary: i)
  case Nil
  then show ?case by simp
next
  case (Cons s rest)
  then show ?case
    by (auto split: if_splits sum.splits)
qed

lemma predict_empty: "predict tk forward sg [] = Inl IndexError"
  by (simp add: predict_def encoding_empty)

lemma predict_nonempty:
  assumes "texts \<noteq> []"
  shows "predict tk forward sg texts =
    display_results threshold (sigmoid_rows sg (forward (pad_batch tk PadLongest 128 texts))) 0 texts"
  using assms by (simp add: predict_def inference_encoding_nonempty Let_def)

lemma predict_Inr:
  assumes "predict tk forward sg texts = Inr rs"
  shows "texts \<noteq> [] \<and> length texts \<le> length (forward (pad_batch tk PadLongest 128 texts))
    \<and> length rs = length texts
    \<and> (\<forall>i<length texts. rs ! i =
          \<lparr>pr_text = texts ! i,
           pr_probabilities = map sg (forward (pad_batch tk PadLongest 128 texts) ! i),
           pr_predicted_labels =
             decode (map sg (forward (pad_batch tk PadLongest 128 texts) ! i)) threshold\<rparr>)"
proof -
  let ?logits = "forward (pad_batch tk PadLongest 128 texts)"
  from assms have ne: "texts \<noteq> []"
    by (auto simp: predict_empty)
  with assms have d: "display_results threshold (sigmoid_rows sg ?logits) 0 texts = Inr rs"
    by (simp add: predict_nonempty)
  with display_results_Inr [OF d] ne have le: "0 + length texts \<le> length (sigmoid_rows sg ?logits)"
    by simp
  from display_results_ok [OF le, of threshold] d
  have "length rs = length texts"
    and "\<forall>k<length texts. rs ! k =
          \<lparr>pr_text = texts ! k, pr_probabilities = sigmoid_rows sg ?logits ! (0 + k),
           pr_predicted_labels = decode (sigmoid_rows sg ?logits ! (0 + k)) threshold\<rparr>"
    by auto
  with ne le show ?thesis
    by (simp add: sigmoid_rows_def)
qed

lemma predict_returns:
  assumes "texts \<noteq> []" "length texts \<le> length (forward (pad_batch tk PadLongest 128 texts))"
  shows "\<exists>rs. predict tk forward sg texts = Inr rs"
proof -
  have "0 + length texts
      \<le> length (sigmoid_rows sg (forward (pad_batch tk PadLongest 128 texts)))"
    using assms(2) by (simp add: sigmoid_rows_def)
  from display_results_ok [OF this, of threshold] show ?thesis
    by (auto simp: predict_nonempty [OF assms(1)])
qed

lemma predict_too_few_rows:
  assumes "texts \<noteq> []" "length (forward (pad_batch tk PadLongest 128 texts)) < length texts"
  shows "predict tk forward sg texts = Inl IndexError"
proof (cases "predict tk forward sg texts")
  case (Inl e)
  then show ?thesis
    using display_results_Inl predict_nonempty [OF assms(1)] by metis
next
  case (Inr rs)
  from predict_Inr [OF this] assms(2) show ?thesis
    by simp
qed




text \<open>
  Claim C6, amended. Whenever the inference cell returns, it returns one result per input
  text, in the order of the input: result \<open>i\<close> carries text \<open>i\<close>, the squashed row
  \<open>i\<close> of the model's logits and its decoding at the default threshold, and the
  probabilities have length N when the model's rows have. It returns for every sequence of
  texts that is not empty and for which the model gives at least one row per text. For the
  empty sequence the call of the tokenizer raises IndexError, and so does the cell; with
  fewer rows than texts the loop over the texts raises IndexError.
\<close>

theorem predict_one_result_per_text:
  "(predict tk forward sg texts = Inr rs \<longrightarrow>
      texts \<noteq> [] \<and> length texts \<le> length (forward (pad_batch tk PadLongest 128 texts))
      \<and> length rs = length texts
      \<and> (\<forall>i<length texts. pr_text (rs ! i) = texts ! i
            \<and> pr_probabilities (rs ! i) = map sg (forward (pad_batch tk PadLongest 128 texts) ! i)
            \<and> pr_predicted_labels (rs ! i) = decode (pr_probabilities (rs ! i)) threshold
            \<and> ((\<forall>row\<in>set (forward (pad_batch tk PadLongest 128 texts)). length row = num_labels)
                 \<longrightarrow> length (pr_probabilities (rs ! i)) = num_labels)))
   \<and> (texts \<noteq> [] \<and> length texts \<le> length (forward (pad_batch tk PadLongest 128 texts)) \<longrightarrow>
        (\<exists>rs'. predict tk forward sg texts = Inr rs'))
   \<and> (texts \<noteq> [] \<and> length (forward (pad_batch tk PadLongest 128 texts)) < length texts \<longrightarrow>
        predict tk forward sg texts = Inl IndexError)
   \<and> predict tk forward sg [] = Inl IndexError"
proof (intro conjI)
  show "predict tk forward sg texts = Inr rs \<longrightarrow>
      texts \<noteq> [] \<and> length texts \<le> length (forward (pad_batch tk PadLongest 128 texts))
      \<and> length rs = length texts
      \<and> (\<forall>i<length texts. pr_text (rs ! i) = texts ! i
            \<and> pr_probabilities (rs ! i) = map sg (forward (pad_batch tk PadLongest 128 texts) ! i)
            \<and> pr_predicted_labels (rs ! i) = decode (pr_probabilities (rs ! i)) threshold
            \<and> ((\<forall>row\<in>set (forward (pad_batch tk PadLongest 128 texts)). length row = num_labels)
                 \<longrightarrow> length (pr_probabilities (rs ! i)) = num_labels))"
  proof
    assume "predict tk forward sg texts = Inr rs"
    from predict_Inr [OF this] show "texts \<noteq> []
      \<and> length texts \<le> length (forward (pad_batch tk PadLongest 128 texts))
      \<and> length rs = length texts
      \<and> (\<forall>i<length texts. pr_text (rs ! i) = texts ! i
            \<and> pr_probabilities (rs ! i) = map sg (forward (pad_batch tk PadLongest 128 texts) ! i)
            \<and> pr_predicted_labels (rs ! i) = decode (pr_probabilities (rs ! i)) threshold
            \<and> ((\<forall>row\<in>set (forward (pad_batch tk PadLongest 128 texts)). length row = num_labels)
                 \<longrightarrow> length (pr_probabilities (rs ! i)) = num_labels))"
      by simp
  qed
next
  show "texts \<noteq> [] \<and> length texts \<le> length (forward (pad_batch tk PadLongest 128 texts)) \<longrightarrow>
        (\<exists>rs'. predict tk forward sg texts = Inr rs')"
    using predict_returns by blast
next
  show "texts \<noteq> [] \<and> length (forward (pad_batch tk PadLongest 128 texts)) < length texts \<longrightarrow>
        predict tk forward sg texts = Inl IndexError"
    using predict_too_few_rows by blast
next
  show "predict tk forward sg [] = Inl IndexError"
    by (rule predict_empty)
qed

text \<open>
  Claim C6, as stated, with one result per input for every sequence of texts: on the empty
  sequence the cell has no result, it raises.
\<close>

theorem predict_empty_batch_counterexample:
  "predict \<lparr>tokenize = map of_char, bos_token_id = 0, eos_token_id = 2, pad_token_id = 1\<rparr>
     (map (map real) \<circ> input_ids) sigmoid [] = Inl IndexError"
  by (simp add: predict_def inference_encoding_def call_tokenizer_def)

theorem predict_one_result_per_text_witness:
  "length (projr (predict
        \<lparr>tokenize = map of_char, bos_token_id = 0, eos_token_id = 2, pad_token_id = 1\<rparr>
        (\<lambda>enc. map (\<lambda>ids. replicate 28 0) (input_ids enc)) sigmoid
        [''great day'', ''so angry''])) = 2
   \<and> pr_text (projr (predict
        \<lparr>tokenize = map of_char, bos_token_id = 0, eos_token_id = 2, pad_token_id = 1\<rparr>
        (\<lambda>enc. map (\<lambda>ids. replicate 28 0) (input_ids enc)) sigmoid
        [''great day'', ''so angry'']) ! 1)
       = ''so angry''
   \<and> length (pr_probabilities (projr (predict
        \<lparr>tokenize = map of_char, bos_token_id = 0, eos_token_id = 2, pad_token_id = 1\<rparr>
        (\<lambda>enc. map (\<lambda>ids. replicate 28 0) (input_ids enc)) sigmoid
        [''great day'', ''so angry'']) ! 1))
       = num_labels
   \<and> predict
        \<lparr>tokenize = map of_char, bos_token_id = 0, eos_token_id = 2, pad_token_id = 1\<rparr>
        (\<lambda>enc. map (\<lambda>ids. replicate 28 0) (input_ids enc)) sigmoid [] = Inl IndexError"
proof -
  let ?tk = "\<lparr>tokenize = map of_char, bos_token_id = 0, eos_token_id = 2, pad_token_id = 1\<rparr>"
  let ?fwd = "\<lambda>enc. map (\<lambda>ids. replicate 28 (0::real)) (input_ids enc)"
  let ?texts = "[''great day'', ''so angry'']"
  note t = predict_one_result_per_text [where tk = ?tk and forward = ?fwd and sg = sigmoid]
  have empty: "predict ?tk ?fwd sigmoid [] = Inl IndexError"
    by (rule t [THEN conjunct2, THEN conjunct2, THEN conjunct2])
  have h1: "?texts \<noteq> [] \<and> length ?texts \<le> length (?fwd (pad_batch ?tk PadLongest 128 ?texts))"
    by (simp add: length_pad_batch)
  have h2: "\<forall>row\<in>set (?fwd (pad_batch ?tk PadLongest 128 ?texts)). length row = num_labels"
    by (auto simp: num_labels_def)
  from mp [OF t [where texts = ?texts, THEN conjunct2, THEN conjunct1] h1]
  obtain rs where p: "predict ?tk ?fwd sigmoid ?texts = Inr rs" ..
  note r = mp [OF t [where texts = ?texts and rs = rs, THEN conjunct1] p]
  have len: "length rs = length ?texts"
    by (rule r [THEN conjunct2, THEN conjunct2, THEN conjunct1])
  have one: "1 < length ?texts"
    by simp
  note r1 = r [THEN conjunct2, THEN conjunct2, THEN conjunct2, rule_format, OF one]
  have "pr_text (rs ! 1) = ?texts ! 1"
    by (rule r1 [THEN conjunct1])
  then have x: "pr_text (rs ! 1) = ''so angry''"
    by simp
  have y: "length (pr_probabilities (rs ! 1)) = num_labels"
    by (rule mp [OF r1 [THEN conjunct2, THEN conjunct2, THEN conjunct2] h2])
  from p len x y empty show ?thesis
    by simp
qed

subsection \<open>Padding at training and at inference\<close>

lemma length_encode_one:
  "length (encode_one tk max_length s) = 2 + min (length (tokenize tk s)) (max_length - 2)"
  by (simp add: encode_one_def)

lemma foldr_max_upper:
  assumes "n \<in> set ns"
  shows "n \<le> foldr max ns (0::nat)"
  using assms by (induction ns) auto

lemma foldr_max_bounded:
  assumes "\<forall>n\<in>set ns. n \<le> b"
  shows "foldr max ns (0::nat) \<le> b"
  using assms by (induction ns) auto

lemma longest_le_max_length:
  "pad_length PadLongest 128 (map (encode_one tk 128) texts) \<le> 128"
  by (auto simp: pad_length_def length_encode_one intro!: foldr_max_bounded)

lemma encode_one_le_longest:
  assumes "i < length texts"
  shows "length (encode_one tk 128 (texts ! i))
    \<le> pad_length PadLongest 128 (map (encode_one tk 128) texts)"
  using assms by (auto simp: pad_length_def intro!: foldr_max_upper)

lemma pad_batch_rows:
  assumes i: "i < length texts"
  shows "input_ids (pad_batch tk PadMaxLength 128 texts) ! i =
        input_ids (pad_batch tk PadLongest 128 texts) ! i
          @ replicate (128 - pad_length PadLongest 128 (map (encode_one tk 128) texts))
              (pad_token_id tk)
      \<and> attention_mask (pad_batch tk PadMaxLength 128 texts) ! i =
        attention_mask (pad_batch tk PadLongest 128 texts) ! i
          @ replicate (128 - pad_length PadLongest 128 (map (encode_one tk 128) texts)) 0
      \<and> length (input_ids (pad_batch tk PadLongest 128 texts) ! i) =
          pad_length PadLongest 128 (map (encode_one tk 128) texts)
      \<and> length (input_ids (pad_batch tk PadMaxLength 128 texts) ! i) = 128"
proof -
  define L where "L = pad_length PadLongest 128 (map (encode_one tk 128) texts)"
  have L: "L \<le> 128"
    unfolding L_def by (rule longest_le_max_length)
  have M: "pad_length PadMaxLength 128 (map (encode_one tk 128) texts) = 128"
    by (simp add: pad_length_def)
  have le: "length (encode_one tk 128 (texts ! i)) \<le> L"
    unfolding L_def using i by (rule encode_one_le_longest)
  have pad: "replicate (128 - length (encode_one tk 128 (texts ! i))) x =
      replicate (L - length (encode_one tk 128 (texts ! i))) x @ replicate (128 - L) x"
    for x :: nat
    using le L by (simp add: replicate_add [symmetric])
  show ?thesis
    using i le L
    by (simp add: input_ids_pad_batch_nth attention_mask_pad_batch_nth M L_def [symmetric] pad)
qed

lemma pad_batch_eq_iff:
  assumes "texts \<noteq> []"
  shows "(pad_batch tk PadLongest 128 texts = pad_batch tk PadMaxLength 128 texts)
    = (pad_length PadLongest 128 (map (encode_one tk 128) texts) = 128)"
proof
  assume e: "pad_batch tk PadLongest 128 texts = pad_batch tk PadMaxLength 128 texts"
  have "0 < length texts"
    using assms by simp
  from pad_batch_rows [OF this, of tk] e
  show "pad_length PadLongest 128 (map (encode_one tk 128) texts) = 128"
    by simp
next
  assume "pad_length PadLongest 128 (map (encode_one tk 128) texts) = 128"
  moreover have "pad_length PadMaxLength 128 (map (encode_one tk 128) texts) = 128"
    by (simp add: pad_length_def)
  ultimately show "pad_batch tk PadLongest 128 texts = pad_batch tk PadMaxLength 128 texts"
    by (simp add: pad_batch_def Let_def)
qed

text \<open>
  Claim C8, amended. At inference the texts are batch-encoded with the truncation and the
  max_length (128) of training, but not with its padding: training pads every sequence to
  max_length, inference pads to the longest sequence of the batch. For every text the
  training-time encoding is the inference-time encoding followed by \<open>128 - L\<close> more
  padding positions (pad token, attention mask 0), \<open>L\<close> the length of the longest encoded
  sequence of the inference batch; the two encodings of a batch are equal exactly when
  \<open>L = 128\<close>. (On an empty batch both calls raise IndexError.)
\<close>

theorem training_encoding_extends_inference_encoding:
  "(texts \<noteq> [] \<longrightarrow>
      (\<exists>tr inf. training_encoding tk texts = Inr tr \<and> inference_encoding tk texts = Inr inf
         \<and> (\<forall>i<length texts.
               input_ids tr ! i =
                 input_ids inf ! i
                   @ replicate (128 - pad_length PadLongest 128 (map (encode_one tk 128) texts))
                       (pad_token_id tk)
               \<and> attention_mask tr ! i =
                 attention_mask inf ! i
                   @ replicate (128 - pad_length PadLongest 128 (map (encode_one tk 128) texts)) 0
               \<and> length (input_ids inf ! i) =
                   pad_length PadLongest 128 (map (encode_one tk 128) texts)
               \<and> length (input_ids tr ! i) = 128)
         \<and> length (input_ids inf) = length texts
         \<and> length (input_ids tr) = length texts
         \<and> (inference_encoding tk texts = training_encoding tk texts)
             = (pad_length PadLongest 128 (map (encode_one tk 128) texts) = 128)))
   \<and> pad_length PadLongest 128 (map (encode_one tk 128) texts) \<le> 128
   \<and> (texts = [] \<longrightarrow>
        training_encoding tk texts = Inl IndexError \<and> inference_encoding tk texts = Inl IndexError)"
proof (intro conjI impI)
  assume ne: "texts \<noteq> []"
  let ?tr = "pad_batch tk PadMaxLength 128 texts"
  let ?inf = "pad_batch tk PadLongest 128 texts"
  have tr: "training_encoding tk texts = Inr ?tr" and inf: "inference_encoding tk texts = Inr ?inf"
    using ne by (simp_all add: training_encoding_nonempty inference_encoding_nonempty)
  have eq: "(inference_encoding tk texts = training_encoding tk texts)
      = (pad_length PadLongest 128 (map (encode_one tk 128) texts) = 128)"
    unfolding tr inf using pad_batch_eq_iff [OF ne, of tk] by simp
  show "\<exists>tr inf. training_encoding tk texts = Inr tr \<and> inference_encoding tk texts = Inr inf
         \<and> (\<forall>i<length texts.
               input_ids tr ! i =
                 input_ids inf ! i
                   @ replicate (128 - pad_length PadLongest 128 (map (encode_one tk 128) texts))
                       (pad_token_id tk)
               \<and> attention_mask tr ! i =
                 attention_mask inf ! i
                   @ replicate (128 - pad_length PadLongest 128 (map (encode_one tk 128) texts)) 0
               \<and> length (input_ids inf ! i) =
                   pad_length PadLongest 128 (map (encode_one tk 128) texts)
               \<and> length (input_ids tr ! i) = 128)
         \<and> length (input_ids inf) = length texts
         \<and> length (input_ids tr) = length texts
         \<and> (inference_encoding tk texts = training_encoding tk texts)
             = (pad_length PadLongest 128 (map (encode_one tk 128) texts) = 128)"
  proof (rule exI [of _ ?tr], rule exI [of _ ?inf], intro conjI allI impI)
    show "training_encoding tk texts = Inr ?tr"
      by (rule tr)
    show "inference_encoding tk texts = Inr ?inf"
      by (rule inf)
    show "length (input_ids ?inf) = length texts" "length (input_ids ?tr) = length texts"
      by (simp_all add: length_pad_batch)
    show "(inference_encoding tk texts = training_encoding tk texts)
             = (pad_length PadLongest 128 (map (encode_one tk 128) texts) = 128)"
      by (rule eq)
  next
    fix i assume i: "i < length texts"
    note r = pad_batch_rows [OF i, of tk]
    show "input_ids ?tr ! i = input_ids ?inf ! i
        @ replicate (128 - pad_length PadLongest 128 (map (encode_one tk 128) texts))
            (pad_token_id tk)"
      by (rule r [THEN conjunct1])
    show "attention_mask ?tr ! i = attention_mask ?inf ! i
        @ replicate (128 - pad_length PadLongest 128 (map (encode_one tk 128) texts)) 0"
      by (rule r [THEN conjunct2, THEN conjunct1])
    show "length (input_ids ?inf ! i) = pad_length PadLongest 128 (map (encode_one tk 128) texts)"
      by (rule r [THEN conjunct2, THEN conjunct2, THEN conjunct1])
    show "length (input_ids ?tr ! i) = 128"
      by (rule r [THEN conjunct2, THEN conjunct2, THEN conjunct2])
  qed
next
  show "pad_length PadLongest 128 (map (encode_one tk 128) texts) \<le> 128"
    by (rule longest_le_max_length)
next
  assume "texts = []"
  then show "training_encoding tk texts = Inl IndexError"
    "inference_encoding tk texts = Inl IndexError"
    by (simp_all add: encoding_empty)
qed

lemma hi_inference:
  "inference_encoding
      \<lparr>tokenize = map of_char, bos_token_id = 0, eos_token_id = 2, pad_token_id = 1\<rparr> [''hi'']
    = Inr \<lparr>input_ids = [[0, 104, 105, 2]], attention_mask = [[1, 1, 1, 1]]\<rparr>"
  by (simp add: inference_encoding_def call_tokenizer_def pad_batch_def encode_one_def
      pad_length_def Let_def)

text \<open>
  Claim C8, as stated, with equal encodings at inference and at training: the text hi alone
  in a batch is encoded in 4 positions at inference and in 128 at training.
\<close>

theorem inference_padding_counterexample:
  "inference_encoding
      \<lparr>tokenize = map of_char, bos_token_id = 0, eos_token_id = 2, pad_token_id = 1\<rparr> [''hi'']
   \<noteq> training_encoding
      \<lparr>tokenize = map of_char, bos_token_id = 0, eos_token_id = 2, pad_token_id = 1\<rparr> [''hi'']"
proof
  let ?tk = "\<lparr>tokenize = map of_char, bos_token_id = 0, eos_token_id = 2, pad_token_id = 1\<rparr>"
  assume "inference_encoding ?tk [''hi''] = training_encoding ?tk [''hi'']"
  then have "length (hd (input_ids (projr (inference_encoding ?tk [''hi'']))))
      = length (hd (input_ids (projr (training_encoding ?tk [''hi'']))))"
    by simp
  moreover have "length (hd (input_ids (projr (training_encoding ?tk [''hi''])))) = 128"
    by (simp add: training_encoding_def call_tokenizer_def pad_batch_def encode_one_def
        pad_length_def Let_def)
  moreover have "length (hd (input_ids (projr (inference_encoding ?tk [''hi''])))) = 4"
    unfolding hi_inference by simp
  ultimately show False
    by simp
qed

theorem training_encoding_extends_inference_encoding_witness:
  "input_ids (projr (training_encoding
       \<lparr>tokenize = map of_char, bos_token_id = 0, eos_token_id = 2, pad_token_id = 1\<rparr>
       [''hi'', ''hello''])) ! 0
     = input_ids (projr (inference_encoding
       \<lparr>tokenize = map of_char, bos_token_id = 0, eos_token_id = 2, pad_token_id = 1\<rparr>
       [''hi'', ''hello''])) ! 0 @ replicate 121 1
   \<and> length (input_ids (projr (inference_encoding
       \<lparr>tokenize = map of_char, bos_token_id = 0, eos_token_id = 2, pad_token_id = 1\<rparr>
       [''hi'', ''hello''])) ! 0) = 7
   \<and> length (input_ids (projr (training_encoding
       \<lparr>tokenize = map of_char, bos_token_id = 0, eos_token_id = 2, pad_token_id = 1\<rparr>
       [''hi'', ''hello''])) ! 0) = 128
   \<and> training_encoding
       \<lparr>tokenize = map of_char, bos_token_id = 0, eos_token_id = 2, pad_token_id = 1\<rparr> []
       = Inl IndexError"
proof -
  let ?tk = "\<lparr>tokenize = map of_char, bos_token_id = 0, eos_token_id = 2, pad_token_id = 1\<rparr>"
  let ?texts = "[''hi'', ''hello'']"
  have longest: "pad_length PadLongest 128 (map (encode_one ?tk 128) ?texts) = 7"
    by (simp add: pad_length_def encode_one_def)
  note t = training_encoding_extends_inference_encoding [where tk = ?tk]
  have "([] :: string list) = []"
    by simp
  from mp [OF t [where texts = "[]", THEN conjunct2, THEN conjunct2] this]
  have empty: "training_encoding ?tk [] = Inl IndexError"
    by (rule conjunct1)
  have ne: "?texts \<noteq> []"
    by simp
  from mp [OF t [where texts = ?texts, THEN conjunct1] ne]
  obtain tr inf where tr: "training_encoding ?tk ?texts = Inr tr"
    and inf: "inference_encoding ?tk ?texts = Inr inf"
    and rows: "\<forall>i<length ?texts.
               input_ids tr ! i =
                 input_ids inf ! i
                   @ replicate (128 - pad_length PadLongest 128 (map (encode_one ?tk 128) ?texts))
                       (pad_token_id ?tk)
               \<and> attention_mask tr ! i =
                 attention_mask inf ! i
                   @ replicate (128 - pad_length PadLongest 128 (map (encode_one ?tk 128) ?texts)) 0
               \<and> length (input_ids inf ! i) =
                   pad_length PadLongest 128 (map (encode_one ?tk 128) ?texts)
               \<and> length (input_ids tr ! i) = 128"
    by (elim exE conjE)
  have i0: "0 < length ?texts"
    by simp
  note r = rows [rule_format, OF i0]
  have "input_ids tr ! 0 = input_ids inf ! 0 @ replicate 121 1"
    using r [THEN conjunct1] unfolding longest by simp
  moreover have "length (input_ids inf ! 0) = 7"
    using r [THEN conjunct2, THEN conjunct2, THEN conjunct1] unfolding longest .
  moreover have "length (input_ids tr ! 0) = 128"
    by (rule r [THEN conjunct2, THEN conjunct2, THEN conjunct2])
  ultimately show ?thesis
    using tr inf empty by simp
qed

subsection \<open>The argmax of the accuracy cell\<close>

lemma argmax_scan_spec:
  assumes "best < length pre" "bv = pre ! best" "\<forall>j<length pre. pre ! j \<le> bv"
    "\<forall>j<best. pre ! j < bv" "i = length pre"
  shows "argmax_scan best bv i xs < length (pre @ xs)
    \<and> (\<forall>j<length (pre @ xs). (pre @ xs) ! j \<le> (pre @ xs) ! argmax_scan best bv i xs)
    \<and> (\<forall>j<argmax_scan best bv i xs. (pre @ xs) ! j < (pre @ xs) ! argmax_scan best bv i xs)"
  using assms
proof (induction xs arbitrary: pre best bv i)
  case Nil
  then show ?case by simp
next
  case (Cons x xs)
  show ?case
  proof (cases "bv < x")
    case True
    have "argmax_scan i x (Suc i) xs < length ((pre @ [x]) @ xs)
      \<and> (\<forall>j<length ((pre @ [x]) @ xs).
            ((pre @ [x]) @ xs) ! j \<le> ((pre @ [x]) @ xs) ! argmax_scan i x (Suc i) xs)
      \<and> (\<forall>j<argmax_scan i x (Suc i) xs.
            ((pre @ [x]) @ xs) ! j < ((pre @ [x]) @ xs) ! argmax_scan i x (Suc i) xs)"
    proof (rule Cons.IH)
      show "i < length (pre @ [x])" "x = (pre @ [x]) ! i" "Suc i = length (pre @ [x])"
        using Cons.prems(5) by simp_all
      show "\<forall>j<length (pre @ [x]). (pre @ [x]) ! j \<le> x"
        using Cons.prems(3) True by (auto simp: nth_append less_Suc_eq intro: order.trans less_imp_le)
      show "\<forall>j<i. (pre @ [x]) ! j < x"
        using Cons.prems(3,5) True by (auto simp: nth_append intro: le_less_trans)
    qed
    with True show ?thesis by simp
  next
    case False
    have "argmax_scan best bv (Suc i) xs < length ((pre @ [x]) @ xs)
      \<and> (\<forall>j<length ((pre @ [x]) @ xs).
            ((pre @ [x]) @ xs) ! j \<le> ((pre @ [x]) @ xs) ! argmax_scan best bv (Suc i) xs)
      \<and> (\<forall>j<argmax_scan best bv (Suc i) xs.
            ((pre @ [x]) @ xs) ! j < ((pre @ [x]) @ xs) ! argmax_scan best bv (Suc i) xs)"
    proof (rule Cons.IH)
      show "best < length (pre @ [x])" "bv = (pre @ [x]) ! best" "Suc i = length (pre @ [x])"
        using Cons.prems(1,2,5) by (simp_all add: nth_append)
      show "\<forall>j<length (pre @ [x]). (pre @ [x]) ! j \<le> bv"
        using Cons.prems(3) False by (auto simp: nth_append less_Suc_eq)
      show "\<forall>j<best. (pre @ [x]) ! j < bv"
        using Cons.prems(1,4) by (auto simp: nth_append)
    qed
    with False show ?thesis by simp
  qed
qed

lemma argmax_spec:
  assumes "row \<noteq> []"
  shows "\<exists>k. argmax row = Inr k \<and> k < length row
    \<and> (\<forall>j<length row. row ! j \<le> row ! k) \<and> (\<forall>j<k. row ! j < row ! k)"
proof -
  from assms obtain x xs where row: "row = x # xs"
    by (cases row) auto
  have "argmax_scan 0 x 1 xs < length ([x] @ xs)
    \<and> (\<forall>j<length ([x] @ xs). ([x] @ xs) ! j \<le> ([x] @ xs) ! argmax_scan 0 x 1 xs)
    \<and> (\<forall>j<argmax_scan 0 x 1 xs. ([x] @ xs) ! j < ([x] @ xs) ! argmax_scan 0 x 1 xs)"
    by (rule argmax_scan_spec) simp_all
  then show ?thesis
    unfolding row by simp
qed

lemma argmax_rows_spec:
  assumes "\<forall>row\<in>set logits. row \<noteq> []"
  shows "\<exists>ks. argmax_rows logits = Inr ks \<and> length ks = length logits
    \<and> (\<forall>i<length logits. argmax (logits ! i) = Inr (ks ! i))"
  using assms
proof (induction logits)
  case Nil
  then show ?case by simp
next
  case (Cons row rest)
  then obtain ks where ks: "argmax_rows rest = Inr ks" "length ks = length rest"
    "\<forall>i<length rest. argmax (rest ! i) = Inr (ks ! i)"
    by auto
  from Cons.prems obtain k where k: "argmax row = Inr k"
    using argmax_spec [of row] by auto
  from ks k show ?case
    by (auto simp: nth_Cons split: nat.splits)
qed

lemma accuracy_counts_matches:
  assumes "length predictions = length references" "references \<noteq> []"
  shows "accuracy predictions references =
    Inr (Some (real (card {i. i < length references \<and> int (predictions ! i) = references ! i})
               / real (length references)))"
proof -
  have "{i. i < length (zip predictions references)
            \<and> (case zip predictions references ! i of (p, r) \<Rightarrow> int p = r)}
      = {i. i < length references \<and> int (predictions ! i) = references ! i}"
    using assms(1) by auto
  then show ?thesis
    using assms by (simp add: accuracy_def length_filter_conv_card)
qed

lemma argmax_all_zero: "argmax (replicate num_labels 0) = Inr 0"
  by code_simp

lemma decode_all_half: "decode (map sigmoid (replicate num_labels 0)) threshold = []"
proof -
  have "set (decode (map sigmoid (replicate num_labels 0)) threshold) = {}"
    by (auto simp: set_decode sigmoid_zero threshold_def)
  then show ?thesis by simp
qed

text \<open>
  Claim C9. Whenever the model returns one row of N logits per text, the accuracy cell
  computes one prediction per text, the index of the first maximal logit of the row of
  that text (an index below N, no entry of the row greater, every earlier entry smaller),
  and reports the fraction of texts whose prediction equals the raw integer label. It does
  not apply the thresholded decoding: on N logits 0 the argmax is index 0, while the
  decoding of their probabilities at the default threshold is empty.
\<close>

theorem accuracy_cell_uses_argmax:
  assumes "length (forward (pad_batch tk PadLongest 128 texts)) = length texts"
    and "\<forall>row\<in>set (forward (pad_batch tk PadLongest 128 texts)). length row = num_labels"
    and "length label_column = length texts"
    and "texts \<noteq> []"
  shows "\<exists>predictions.
      inference_encoding tk texts = Inr (pad_batch tk PadLongest 128 texts)
      \<and> argmax_rows (forward (pad_batch tk PadLongest 128 texts)) = Inr predictions
      \<and> length predictions = length texts
      \<and> (\<forall>i<length texts. predictions ! i < num_labels
            \<and> (\<forall>j<num_labels. forward (pad_batch tk PadLongest 128 texts) ! i ! j
                  \<le> forward (pad_batch tk PadLongest 128 texts) ! i ! (predictions ! i))
            \<and> (\<forall>j<predictions ! i. forward (pad_batch tk PadLongest 128 texts) ! i ! j
                  < forward (pad_batch tk PadLongest 128 texts) ! i ! (predictions ! i)))
      \<and> accuracy_cell tk forward texts label_column =
          Inr (Some (real (card {i. i < length texts \<and> int (predictions ! i) = label_column ! i})
                     / real (length texts)))
      \<and> argmax (replicate num_labels 0) = Inr 0
      \<and> decode (map sigmoid (replicate num_labels 0)) threshold = []"
proof -
  let ?logits = "forward (pad_batch tk PadLongest 128 texts)"
  have enc: "inference_encoding tk texts = Inr (pad_batch tk PadLongest 128 texts)"
    using assms(4) by (rule inference_encoding_nonempty)
  have ne: "\<forall>row\<in>set ?logits. row \<noteq> []"
    using assms(2) by (auto simp: num_labels_def)
  from argmax_rows_spec [OF ne] obtain ks where ks: "argmax_rows ?logits = Inr ks"
    and len: "length ks = length ?logits"
    and each: "\<forall>i<length ?logits. argmax (?logits ! i) = Inr (ks ! i)"
    by blast
  have row: "ks ! i < num_labels
      \<and> (\<forall>j<num_labels. ?logits ! i ! j \<le> ?logits ! i ! (ks ! i))
      \<and> (\<forall>j<ks ! i. ?logits ! i ! j < ?logits ! i ! (ks ! i))"
    if i: "i < length texts" for i
  proof -
    have w: "length (?logits ! i) = num_labels"
      using assms(1,2) i by simp
    then have "?logits ! i \<noteq> []"
      by (auto simp: num_labels_def)
    from argmax_spec [OF this] each i assms(1) w show ?thesis
      by auto
  qed
  have "accuracy ks label_column =
      Inr (Some (real (card {i. i < length label_column \<and> int (ks ! i) = label_column ! i})
                 / real (length label_column)))"
    using assms len by (intro accuracy_counts_matches) auto
  then have acc: "accuracy_cell tk forward texts label_column =
      Inr (Some (real (card {i. i < length texts \<and> int (ks ! i) = label_column ! i})
                 / real (length texts)))"
    using ks assms(3) by (simp add: accuracy_cell_def enc Let_def)
  from enc ks len assms(1) row acc argmax_all_zero decode_all_half show ?thesis
    by (intro exI [of _ ks]) simp
qed

lemma argmax_one_hot_3: "argmax ((replicate 28 0)[3 := 1]) = Inr 3"
  by code_simp

lemma two_rows_argmax:
  "argmax_rows ((\<lambda>enc. map (\<lambda>ids. (replicate 28 0)[3 := 1]) (input_ids enc))
     (pad_batch
        \<lparr>tokenize = map of_char, bos_token_id = 0, eos_token_id = 2, pad_token_id = 1\<rparr>
        PadLongest 128 [''a'', ''b''])) = Inr [3, 3]"
  by (simp add: pad_batch_def Let_def argmax_one_hot_3)

theorem accuracy_cell_uses_argmax_witness:
  "accuracy_cell
     \<lparr>tokenize = map of_char, bos_token_id = 0, eos_token_id = 2, pad_token_id = 1\<rparr>
     (\<lambda>enc. map (\<lambda>ids. (replicate 28 0)[3 := 1]) (input_ids enc)) [''a'', ''b''] [3, 0]
   = Inr (Some (1 / 2))"
proof -
  let ?tk = "\<lparr>tokenize = map of_char, bos_token_id = 0, eos_token_id = 2, pad_token_id = 1\<rparr>"
  let ?fwd = "\<lambda>enc. map (\<lambda>ids. (replicate 28 (0::real))[3 := 1]) (input_ids enc)"
  let ?texts = "[''a'', ''b'']"
  let ?labels = "[3, 0 :: int]"
  have h1: "length (?fwd (pad_batch ?tk PadLongest 128 ?texts)) = length ?texts"
    by (simp add: length_pad_batch)
  have h2: "\<forall>row\<in>set (?fwd (pad_batch ?tk PadLongest 128 ?texts)). length row = num_labels"
    by (auto simp: num_labels_def)
  have h3: "length ?labels = length ?texts"
    by simp
  have h4: "?texts \<noteq> []"
    by simp
  from accuracy_cell_uses_argmax [of ?fwd ?tk ?texts ?labels, OF h1 h2 h3 h4]
  obtain ks where ks: "argmax_rows (?fwd (pad_batch ?tk PadLongest 128 ?texts)) = Inr ks"
    and acc: "accuracy_cell ?tk ?fwd ?texts ?labels =
          Inr (Some (real (card {i. i < length ?texts \<and> int (ks ! i) = ?labels ! i})
                     / real (length ?texts)))"
    by (elim exE conjE)
  from ks have k: "ks = [3, 3]"
    unfolding two_rows_argmax by simp
  have "{i. i < length ?texts \<and> int (ks ! i) = ?labels ! i} = {0}"
    unfolding k by (auto simp: less_Suc_eq)
  with acc show ?thesis
    by simp
qed

end
